theory Spec2Isabelle
  imports Complex_Main "HOL-Library.AList"
begin

section \<open>The live telemetry pipeline of \<open>node_manager.py\<close>\<close>

text \<open>
  The development embeds the monitoring part of the class \<open>NodeManager\<close>: the two
  ingestion queues, the table of active monitors, the set of subscribed outputs, the
  connection flag and the messages handed to \<open>sio.emit\<close>.

  Conventions of the embedding.
  \<^item> A Python \<open>Queue\<close> is the list of its items, oldest first. \<open>Queue.put\<close> is called
    with its default \<open>block=True\<close> everywhere in the source, so on a full queue it does not
    return until another thread takes an item. The operations are modelled one call at a
    time, with no other thread running in between; a call that would wait on a full queue
    therefore never returns, and its result is \<open>None\<close>. Every operation that reaches a
    \<open>put\<close> has an \<open>option\<close> result for this reason.
  \<^item> The dictionary \<open>active_monitors\<close> is an association list in insertion order, which is
    the iteration order of a Python dictionary.
  \<^item> The Python set \<open>subscribed_outputs\<close> is a HOL set; the list built from it for the wire
    has an unspecified order, so a message records the set of names it carries.
  \<^item> \<open>time.time()\<close> is an argument \<open>now\<close> of the operation that reads the clock.
  \<^item> Calls into DearPyGui, numpy and the plotter are answers of the environment, collected
    in the record \<open>env\<close>. Printing and the texts written to widgets are left out.
\<close>

subsection \<open>Data\<close>

type_synonym monitor_id = string

text \<open>The value under the key \<open>'data'\<close> of a server payload, as decoded from JSON.\<close>

datatype data_value = Scalar real | Listed "data_value list" | Opaque

text \<open>
  The payload of a \<open>data_update\<close> event (the name \<open>raw_data\<close> of the source): either not
  a dictionary, or a dictionary with the optional keys \<open>'data'\<close> and \<open>'shape'\<close>.
\<close>

datatype raw_data = NotADict | RawDict (rd_data: "data_value option") (rd_shape: "nat list option")

text \<open>
  Queue items. The source builds three shapes of dictionary:
  \<open>{'type': 'status_update', 'monitor_id', 'status', 'timestamp'}\<close>,
  \<open>{'type': 'status_update', 'status'}\<close> (queued by the \<open>connect\<close> handler, with no monitor
  id and no timestamp) and \<open>{'type': 'data_update', 'monitor_id', 'data', 'timestamp'}\<close>.
\<close>

datatype item =
    StatusUpdate "monitor_id option" string "real option"
  | DataUpdate monitor_id raw_data real

fun item_monitor_id :: "item \<Rightarrow> monitor_id option" where
  "item_monitor_id (StatusUpdate m st ts) = m"
| "item_monitor_id (DataUpdate m d ts) = Some m"

fun is_data_update :: "item \<Rightarrow> bool" where
  "is_data_update (StatusUpdate m st ts) = False"
| "is_data_update (DataUpdate m d ts) = True"

fun item_data :: "item \<Rightarrow> raw_data" where
  "item_data (StatusUpdate m st ts) = RawDict None None"
| "item_data (DataUpdate m d ts) = d"

text \<open>
  The dictionary registered for a monitor by \<open>_open_output_monitor\<close>, without the ids of
  the text widgets of its information panel.
\<close>

record monitor_info =
  window_id :: string
  plot_container :: string
  placeholder_tag :: "string option"
  node_uuid :: string
  output_name :: string
  server_output_name :: string
  update_count :: nat
  last_update :: real
  subscribed :: bool
  dpg_plotter :: bool
  min_update_interval :: real
  pending_data :: "item option"
  skipped_frames :: nat

text \<open>The messages passed to \<open>sio.emit\<close>.\<close>

datatype wire_msg =
    GetParams
  | TestConnection
  | NewData "string set"
  | Unsubscribe string

record state =
  active_monitors :: "(monitor_id \<times> monitor_info) list"
  subscribed_outputs :: "string set"
  monitor_data_queue :: "item list"
  status_update_queue :: "item list"
  socketio_connected :: bool
  socketio_enabled :: bool
  monitor_running :: bool
  simple_displays :: "monitor_id list"
  wire :: "wire_msg list"

subsection \<open>Queues\<close>

text \<open>
  \<open>Queue.full\<close>, \<open>Queue.put\<close> and \<open>Queue.get_nowait\<close> of a queue created with
  \<open>Queue(maxsize)\<close>; a \<open>maxsize\<close> of 0 is an unbounded queue.
\<close>

definition q_full :: "nat \<Rightarrow> 'a list \<Rightarrow> bool" where
  "q_full maxsize q \<longleftrightarrow> 0 < maxsize \<and> maxsize \<le> length q"

definition q_put :: "nat \<Rightarrow> 'a list \<Rightarrow> 'a \<Rightarrow> 'a list option" where
  "q_put maxsize q x = (if q_full maxsize q then None else Some (q @ [x]))"

definition q_get_nowait :: "'a list \<Rightarrow> ('a \<times> 'a list) option" where
  "q_get_nowait q = (case q of [] \<Rightarrow> None | x # rest \<Rightarrow> Some (x, rest))"

text \<open>A loop that puts the items of a list, one after the other.\<close>

fun put_all :: "nat \<Rightarrow> 'a list \<Rightarrow> 'a list \<Rightarrow> 'a list option" where
  "put_all maxsize q [] = Some q"
| "put_all maxsize q (x # xs) =
     (case q_put maxsize q x of None \<Rightarrow> None | Some q' \<Rightarrow> put_all maxsize q' xs)"

subsection \<open>Pushing into the ingestion queues\<close>

text \<open>
  \<open>_safe_update_monitor_status\<close>: when the status queue is full its oldest item is taken
  out (an empty queue there is ignored), then the new item is put.
\<close>

definition safe_update_monitor_status :: "monitor_id \<Rightarrow> string \<Rightarrow> real \<Rightarrow> state \<Rightarrow> state option" where
  "safe_update_monitor_status monitor_id status now s =
     (let q = status_update_queue s;
          q1 = (if q_full 50 q
                then (case q_get_nowait q of None \<Rightarrow> q | Some (oldest, rest) \<Rightarrow> rest)
                else q)
      in case q_put 50 q1 (StatusUpdate (Some monitor_id) status (Some now)) of
           None \<Rightarrow> None
         | Some q2 \<Rightarrow> Some (s\<lparr>status_update_queue := q2\<rparr>))"

text \<open>The argument of the \<open>data_update\<close> event: a dictionary read with \<open>get\<close>.\<close>

record data_event =
  ev_name :: "string option"
  ev_data :: "raw_data option"

definition matching_monitors :: "string \<Rightarrow> state \<Rightarrow> (monitor_id \<times> monitor_info) list" where
  "matching_monitors name s =
     filter (\<lambda>(monitor_id, info). server_output_name info = name) (active_monitors s)"

text \<open>
  The handler \<open>data_update\<close>: an event without a name or without data is ignored; so is
  every event that finds 100 items in the data queue; otherwise one item is put for each
  monitor of that server output name.
\<close>

definition data_update :: "data_event \<Rightarrow> real \<Rightarrow> state \<Rightarrow> state option" where
  "data_update data now s =
     (case ev_name data of
        None \<Rightarrow> Some s
      | Some name \<Rightarrow>
         (case ev_data data of
            None \<Rightarrow> Some s
          | Some raw \<Rightarrow>
             if name = [] then Some s
             else if length (monitor_data_queue s) \<ge> 100 then Some s
             else if matching_monitors name s = [] then Some s
             else (case put_all 100 (monitor_data_queue s)
                          (map (\<lambda>(monitor_id, info). DataUpdate monitor_id raw now)
                               (matching_monitors name s)) of
                     None \<Rightarrow> None
                   | Some q \<Rightarrow> Some (s\<lparr>monitor_data_queue := q\<rparr>))))"

text \<open>
  The handler \<open>connect\<close>: the flag is set, a status item without monitor id is put on the
  data queue, and \<open>get_params\<close> is emitted.
\<close>

definition connect :: "state \<Rightarrow> state option" where
  "connect s =
     (case q_put 100 (monitor_data_queue s) (StatusUpdate None ''connected'' None) of
        None \<Rightarrow> None
      | Some q \<Rightarrow>
          Some (s\<lparr>socketio_connected := True, monitor_data_queue := q, wire := wire s @ [GetParams]\<rparr>))"

text \<open>A push is one call of a function that puts into a queue.\<close>

datatype push =
    PushStatus monitor_id string real
  | PushData data_event real
  | PushConnect

fun do_push :: "push \<Rightarrow> state \<Rightarrow> state option" where
  "do_push (PushStatus monitor_id status now) s = safe_update_monitor_status monitor_id status now s"
| "do_push (PushData data now) s = data_update data now s"
| "do_push PushConnect s = connect s"

fun run_pushes :: "push list \<Rightarrow> state \<Rightarrow> state option" where
  "run_pushes [] s = Some s"
| "run_pushes (p # ps) s = (case do_push p s of None \<Rightarrow> None | Some s' \<Rightarrow> run_pushes ps s')"

definition queues_bounded :: "state \<Rightarrow> bool" where
  "queues_bounded s \<longleftrightarrow> length (monitor_data_queue s) \<le> 100 \<and> length (status_update_queue s) \<le> 50"

subsection \<open>Flow control\<close>

text \<open>\<open>_request_next_frame\<close>: one \<open>newdata\<close> message with all subscribed names.\<close>

definition request_next_frame :: "state \<Rightarrow> state" where
  "request_next_frame s =
     (if \<not> socketio_connected s then s
      else if subscribed_outputs s = {} then s
      else s\<lparr>wire := wire s @ [NewData (subscribed_outputs s)]\<rparr>)"

text \<open>The handler \<open>done\<close>.\<close>

definition done_event :: "state \<Rightarrow> state" where
  "done_event s = (if subscribed_outputs s \<noteq> {} then request_next_frame s else s)"

text \<open>
  The function \<open>delayed_request\<close> that \<open>_monitor_update_frame\<close> starts on a thread of its
  own, after its sleep of 20 ms.
\<close>

definition delayed_request :: "state \<Rightarrow> state" where
  "delayed_request s = (if subscribed_outputs s \<noteq> {} then request_next_frame s else s)"

subsection \<open>Subscriptions\<close>

text \<open>
  A monitor's dictionary is mutated in place by the source; the monitor table holds the
  same object, so the change is a change of the entry stored under the monitor's id, when
  there is one.
\<close>

definition update_info :: "monitor_id \<Rightarrow> (monitor_info \<Rightarrow> monitor_info) \<Rightarrow> state \<Rightarrow> state" where
  "update_info monitor_id f s =
     s\<lparr>active_monitors :=
         map (\<lambda>(k, info). if k = monitor_id then (k, f info) else (k, info)) (active_monitors s)\<rparr>"

text \<open>
  The loop over \<open>active_monitors.items()\<close> of \<open>_subscribe_output\<close> and of
  \<open>_unsubscribe_output\<close>: every monitor of the server output name gets its flag
  \<open>subscribed\<close> set and a status item queued.
\<close>

fun set_subscribed :: "string \<Rightarrow> bool \<Rightarrow> string \<Rightarrow> real \<Rightarrow> (monitor_id \<times> monitor_info) list
    \<Rightarrow> state \<Rightarrow> state option" where
  "set_subscribed name flag status now [] s = Some s"
| "set_subscribed name flag status now ((monitor_id, info) # rest) s =
     (if server_output_name info = name
      then (case safe_update_monitor_status monitor_id status now
                   (update_info monitor_id (\<lambda>i. i\<lparr>subscribed := flag\<rparr>) s) of
              None \<Rightarrow> None
            | Some s' \<Rightarrow> set_subscribed name flag status now rest s')
      else set_subscribed name flag status now rest s)"

definition subscribe_output :: "string \<Rightarrow> real \<Rightarrow> state \<Rightarrow> state option" where
  "subscribe_output name now s =
     (if name = [] then Some s
      else case (if name \<notin> subscribed_outputs s
                 then set_subscribed name True ''subscribed'' now (active_monitors s)
                        (s\<lparr>subscribed_outputs := insert name (subscribed_outputs s)\<rparr>)
                 else Some s) of
             None \<Rightarrow> None
           | Some s1 \<Rightarrow> Some (if socketio_connected s1 then request_next_frame s1 else s1))"

definition send_unsubscribe_request :: "string \<Rightarrow> state \<Rightarrow> state" where
  "send_unsubscribe_request name s =
     (if \<not> socketio_connected s then s else s\<lparr>wire := wire s @ [Unsubscribe name]\<rparr>)"

definition unsubscribe_output :: "string \<Rightarrow> real \<Rightarrow> state \<Rightarrow> state option" where
  "unsubscribe_output name now s =
     (if name = [] then Some s
      else if matching_monitors name s = [] \<and> name \<in> subscribed_outputs s
      then (let s1 = s\<lparr>subscribed_outputs := subscribed_outputs s - {name}\<rparr>;
                s2 = (if socketio_connected s1 then send_unsubscribe_request name s1 else s1)
            in set_subscribed name False ''unsubscribed'' now (active_monitors s2) s2)
      else Some s)"

subsection \<open>Connection\<close>

text \<open>
  \<open>_connect_socketio\<close>; the argument tells whether \<open>sio.connect\<close> returned without
  raising. The client library calls the handler \<open>connect\<close> above from its own thread once
  the connection stands.
\<close>

definition connect_socketio :: "bool \<Rightarrow> state \<Rightarrow> state" where
  "connect_socketio connect_ok s =
     (if \<not> socketio_enabled s then s
      else if connect_ok
      then s\<lparr>socketio_connected := True, wire := wire s @ [TestConnection]\<rparr>
      else s\<lparr>socketio_connected := False\<rparr>)"

text \<open>The loop of the handlers \<open>disconnect\<close> and \<open>connect_error\<close> over the monitor ids.\<close>

fun notify_all :: "string \<Rightarrow> real \<Rightarrow> monitor_id list \<Rightarrow> state \<Rightarrow> state option" where
  "notify_all status now [] s = Some s"
| "notify_all status now (monitor_id # rest) s =
     (case safe_update_monitor_status monitor_id status now s of
        None \<Rightarrow> None
      | Some s' \<Rightarrow> notify_all status now rest s')"

definition disconnect :: "real \<Rightarrow> state \<Rightarrow> state option" where
  "disconnect now s =
     notify_all ''disconnected'' now (map fst (active_monitors s)) (s\<lparr>socketio_connected := False\<rparr>)"

subsection \<open>Closing a monitor\<close>

text \<open>
  \<open>_clear_queue_for_monitor\<close>. The first loop empties the data queue into the unbounded
  \<open>temp_queue\<close>, leaving out the items of the monitor; the second puts \<open>temp_queue\<close> back.
\<close>

fun drain_other :: "monitor_id \<Rightarrow> item list \<Rightarrow> item list \<Rightarrow> item list" where
  "drain_other monitor_id [] temp_queue = temp_queue"
| "drain_other monitor_id (item # rest) temp_queue =
     (if item_monitor_id item \<noteq> Some monitor_id
      then drain_other monitor_id rest (temp_queue @ [item])
      else drain_other monitor_id rest temp_queue)"

definition clear_queue_for_monitor :: "monitor_id \<Rightarrow> state \<Rightarrow> state option" where
  "clear_queue_for_monitor monitor_id s =
     (case put_all 100 [] (drain_other monitor_id (monitor_data_queue s) []) of
        None \<Rightarrow> None
      | Some q \<Rightarrow> Some (s\<lparr>monitor_data_queue := q\<rparr>))"

text \<open>
  \<open>_close_monitor\<close>. Clearing the plotter and deleting the window are calls into the
  plotting and GUI libraries and leave the state of the pipeline as it is, so the argument
  \<open>from_window_close\<close> has no effect on it.
\<close>

definition close_monitor :: "monitor_id \<Rightarrow> bool \<Rightarrow> real \<Rightarrow> state \<Rightarrow> state option" where
  "close_monitor monitor_id from_window_close now s =
     (case map_of (active_monitors s) monitor_id of
        None \<Rightarrow> Some s
      | Some info \<Rightarrow>
         (let s1 = s\<lparr>active_monitors := AList.delete monitor_id (active_monitors s)\<rparr>;
              s2 = (if monitor_id \<in> set (simple_displays s1)
                    then s1\<lparr>simple_displays := removeAll monitor_id (simple_displays s1)\<rparr>
                    else s1)
          in case (if server_output_name info \<noteq> []
                   then unsubscribe_output (server_output_name info) now s2
                   else Some s2) of
               None \<Rightarrow> None
             | Some s3 \<Rightarrow>
                (case clear_queue_for_monitor monitor_id s3 of
                   None \<Rightarrow> None
                 | Some s4 \<Rightarrow>
                     Some (if active_monitors s4 = [] \<and> monitor_running s4
                           then s4\<lparr>monitor_running := False\<rparr>
                           else s4))))"

subsection \<open>Rendering\<close>

text \<open>A numpy array: its shape and its elements in row-major order.\<close>

datatype ndarray = NDArray (arr_shape: "nat list") (arr_values: "real list")

definition ndim :: "ndarray \<Rightarrow> nat" where
  "ndim a = length (arr_shape a)"

definition arr_size :: "ndarray \<Rightarrow> nat" where
  "arr_size a = prod_list (arr_shape a)"

text \<open>
  What the libraries answer during one call: whether a GUI item exists, the array that
  \<open>np.array(..., dtype=np.float32)\<close> builds (\<open>None\<close> when it raises), whether each plot
  method of \<open>DPGPlotter\<close> reports success (a method that raises counts as a failure, as
  the enclosing \<open>try\<close> returns \<open>False\<close> then), and the two reductions of a
  3-dimensional array to an image.
\<close>

record env =
  does_item_exist :: "string \<Rightarrow> bool"
  np_array :: "data_value \<Rightarrow> ndarray option"
  plot_history :: "real \<Rightarrow> bool"
  plot_vector :: "ndarray \<Rightarrow> bool"
  plot_2d_image_clean :: "ndarray \<Rightarrow> bool"
  first_channel :: "ndarray \<Rightarrow> ndarray"
  mean_channels :: "ndarray \<Rightarrow> ndarray"

text \<open>The step table of the adaptive frame rate, in seconds.\<close>

definition interval_for_pixel_count :: "nat \<Rightarrow> real" where
  "interval_for_pixel_count pixel_count =
     (if pixel_count > 1000000 then 0.5
      else if pixel_count > 250000 then 0.25
      else if pixel_count > 10000 then 0.1
      else 0.05)"

text \<open>
  The array that \<open>_process_and_plot_data_main_thread\<close> builds from a payload: the value
  under \<open>'data'\<close> is converted (a value that is not a list is wrapped in one), then
  reshaped when the payload has a non-empty \<open>'shape'\<close> of the same number of elements.
\<close>

definition payload_array :: "env \<Rightarrow> raw_data \<Rightarrow> ndarray option" where
  "payload_array e raw =
     (case raw of
        NotADict \<Rightarrow> None
      | RawDict data_value shape \<Rightarrow>
         (case data_value of
            None \<Rightarrow> None
          | Some v \<Rightarrow>
             (case (case v of Listed xs \<Rightarrow> np_array e v | _ \<Rightarrow> np_array e (Listed [v])) of
                None \<Rightarrow> None
              | Some data_array \<Rightarrow>
                 (case shape of
                    None \<Rightarrow> Some data_array
                  | Some sh \<Rightarrow>
                     if sh \<noteq> [] \<and> prod_list sh = arr_size data_array
                     then Some (NDArray sh (arr_values data_array))
                     else Some data_array))))"

text \<open>
  The plot chosen by the number of dimensions. The result is the success flag and the
  monitor's dictionary, whose \<open>min_update_interval\<close> the 2-dimensional branch sets before
  it plots.
\<close>

definition plot_by_shape :: "env \<Rightarrow> ndarray \<Rightarrow> monitor_info \<Rightarrow> bool \<times> monitor_info" where
  "plot_by_shape e data_array info =
     (if ndim data_array = 0 \<or> (ndim data_array = 1 \<and> arr_size data_array = 1)
      then (case arr_values data_array of [] \<Rightarrow> (False, info) | v # vs \<Rightarrow> (plot_history e v, info))
      else if ndim data_array = 1 then (plot_vector e data_array, info)
      else if ndim data_array = 2
      then (let pixel_count = arr_shape data_array ! 0 * arr_shape data_array ! 1
            in (plot_2d_image_clean e data_array,
                info\<lparr>min_update_interval := interval_for_pixel_count pixel_count\<rparr>))
      else if ndim data_array = 3
      then (if arr_shape data_array ! 2 = 1
            then (plot_2d_image_clean e (first_channel e data_array), info)
            else (plot_2d_image_clean e (mean_channels e data_array), info))
      else (False, info))"

text \<open>
  The part of \<open>_process_and_plot_data_main_thread\<close> after the check of the window, on
  the monitor's dictionary.
\<close>

definition plot_info :: "env \<Rightarrow> real \<Rightarrow> raw_data \<Rightarrow> monitor_info \<Rightarrow> bool \<times> monitor_info" where
  "plot_info e now raw info =
     (if plot_container info = [] \<or> \<not> does_item_exist e (plot_container info) then (False, info)
      else
        (let info1 = (case placeholder_tag info of
                        None \<Rightarrow> info
                      | Some p \<Rightarrow> if p \<noteq> [] \<and> does_item_exist e p
                                  then info\<lparr>placeholder_tag := None\<rparr> else info)
         in case payload_array e raw of
              None \<Rightarrow> (False, info1)
            | Some data_array \<Rightarrow>
               (case plot_by_shape e data_array (info1\<lparr>dpg_plotter := True\<rparr>) of
                  (True, info2) \<Rightarrow>
                    (True, info2\<lparr>last_update := now, update_count := update_count info2 + 1\<rparr>)
                | (False, info2) \<Rightarrow> (False, info2))))"

text \<open>
  \<open>_process_and_plot_data_main_thread\<close>. Both callers pass as \<open>info\<close> the dictionary
  they have just read from \<open>active_monitors[monitor_id]\<close>, so the embedding reads it there.
\<close>

definition process_and_plot_data_main_thread ::
    "env \<Rightarrow> real \<Rightarrow> monitor_id \<Rightarrow> raw_data \<Rightarrow> state \<Rightarrow> bool \<times> state" where
  "process_and_plot_data_main_thread e now monitor_id raw s =
     (case map_of (active_monitors s) monitor_id of
        None \<Rightarrow> (False, s)
      | Some info \<Rightarrow>
         if window_id info = [] \<or> \<not> does_item_exist e (window_id info)
         then (False, s\<lparr>active_monitors := AList.delete monitor_id (active_monitors s)\<rparr>)
         else (case plot_info e now raw info of
                 (success, info') \<Rightarrow> (success, update_info monitor_id (\<lambda>i. info') s)))"

subsection \<open>The consumer loop\<close>

text \<open>
  The loop over the status queue of \<open>_monitor_update_frame\<close>: every item is taken out; what
  it does with an item is written to widgets only.
\<close>

fun drain_status :: "item list \<Rightarrow> item list" where
  "drain_status [] = []"
| "drain_status (status_item # rest) = drain_status rest"

text \<open>
  The body of the loop over the data queue, for the item just taken out. The number
  returned is the increment of \<open>processed_count\<close>; \<open>skipped_count\<close> is only printed.
\<close>

fun process_data_item :: "env \<Rightarrow> real \<Rightarrow> item \<Rightarrow> state \<Rightarrow> (nat \<times> state) option" where
  "process_data_item e current_time (StatusUpdate m st ts) s = Some (0, s)"
| "process_data_item e current_time (DataUpdate monitor_id raw ts) s =
     (case map_of (active_monitors s) monitor_id of
        None \<Rightarrow> Some (0, s)
      | Some info \<Rightarrow>
         if window_id info = [] \<or> \<not> does_item_exist e (window_id info)
         then Some (0, s\<lparr>active_monitors := AList.delete monitor_id (active_monitors s)\<rparr>)
         else if current_time - last_update info \<ge> min_update_interval info
         then (case process_and_plot_data_main_thread e current_time monitor_id raw s of
                 (True, s1) \<Rightarrow>
                   (case safe_update_monitor_status monitor_id ''receiving'' current_time
                           (update_info monitor_id (\<lambda>i. i\<lparr>last_update := current_time\<rparr>) s1) of
                      None \<Rightarrow> None
                    | Some s2 \<Rightarrow> Some (1, s2))
               | (False, s1) \<Rightarrow> Some (0, s1))
         else Some (0, update_info monitor_id
                         (\<lambda>i. i\<lparr>pending_data := Some (DataUpdate monitor_id raw ts),
                                skipped_frames := skipped_frames i + 1\<rparr>) s))"

text \<open>The loop \<open>for _ in range(max_items_per_frame)\<close>, with \<open>processed_count\<close>.\<close>

fun drain_data :: "env \<Rightarrow> real \<Rightarrow> nat \<Rightarrow> nat \<Rightarrow> state \<Rightarrow> (nat \<times> state) option" where
  "drain_data e current_time 0 processed_count s = Some (processed_count, s)"
| "drain_data e current_time (Suc n) processed_count s =
     (case q_get_nowait (monitor_data_queue s) of
        None \<Rightarrow> Some (processed_count, s)
      | Some (item, rest) \<Rightarrow>
         (case process_data_item e current_time item (s\<lparr>monitor_data_queue := rest\<rparr>) of
            None \<Rightarrow> None
          | Some (k, s') \<Rightarrow> drain_data e current_time n (processed_count + k) s'))"

text \<open>The loop over the monitors with pending data.\<close>

fun sweep_pending :: "env \<Rightarrow> real \<Rightarrow> monitor_id list \<Rightarrow> state \<Rightarrow> state option" where
  "sweep_pending e current_time [] s = Some s"
| "sweep_pending e current_time (monitor_id # rest) s =
     (case map_of (active_monitors s) monitor_id of
        None \<Rightarrow> sweep_pending e current_time rest s
      | Some info \<Rightarrow>
         (case pending_data info of
            None \<Rightarrow> sweep_pending e current_time rest s
          | Some item \<Rightarrow>
             if current_time - last_update info \<ge> min_update_interval info
             then (case process_and_plot_data_main_thread e current_time monitor_id (item_data item) s of
                     (True, s1) \<Rightarrow>
                       (case safe_update_monitor_status monitor_id ''receiving'' current_time
                               (update_info monitor_id
                                  (\<lambda>i. i\<lparr>last_update := current_time, pending_data := None\<rparr>) s1) of
                          None \<Rightarrow> None
                        | Some s2 \<Rightarrow> sweep_pending e current_time rest s2)
                   | (False, s1) \<Rightarrow> sweep_pending e current_time rest s1)
             else sweep_pending e current_time rest s))"

text \<open>The number of frames after which the loop runs again.\<close>

definition next_frame_delay :: "nat \<Rightarrow> nat" where
  "next_frame_delay qsize = (if qsize > 10 then 1 else if qsize > 0 then 2 else 10)"

text \<open>
  \<open>_monitor_update_frame\<close>. The result is the new state, whether the thread running
  \<open>delayed_request\<close> is started, and the delay of the next invocation.
\<close>

definition monitor_update_frame :: "env \<Rightarrow> real \<Rightarrow> state \<Rightarrow> (state \<times> bool \<times> nat) option" where
  "monitor_update_frame e current_time s =
     (case drain_data e current_time 5 0 (s\<lparr>status_update_queue := drain_status (status_update_queue s)\<rparr>) of
        None \<Rightarrow> None
      | Some (processed_count, s1) \<Rightarrow>
         (case sweep_pending e current_time (map fst (active_monitors s1)) s1 of
            None \<Rightarrow> None
          | Some s2 \<Rightarrow>
             Some (s2,
                   processed_count > 0 \<and> socketio_connected s2 \<and> length (monitor_data_queue s2) < 20,
                   next_frame_delay (length (monitor_data_queue s2)))))"

subsection \<open>Queue health\<close>

text \<open>
  The loop of \<open>_monitor_queue_health\<close> that empties the data queue: \<open>latest_items\<close> is a
  dictionary from monitor id to item, \<open>temp_items\<close> the list of the other items.
\<close>

fun collect_latest :: "item list \<Rightarrow> (monitor_id option \<times> item) list \<Rightarrow> item list
    \<Rightarrow> (monitor_id option \<times> item) list \<times> item list" where
  "collect_latest [] latest_items temp_items = (latest_items, temp_items)"
| "collect_latest (item # rest) latest_items temp_items =
     (if is_data_update item
      then collect_latest rest (AList.update (item_monitor_id item) item latest_items) temp_items
      else collect_latest rest latest_items (temp_items @ [item]))"

definition monitor_queue_health :: "state \<Rightarrow> state option" where
  "monitor_queue_health s =
     (if length (monitor_data_queue s) > 50
      then (case collect_latest (monitor_data_queue s) [] [] of
              (latest_items, temp_items) \<Rightarrow>
                (case put_all 100 [] (map snd latest_items @ temp_items) of
                   None \<Rightarrow> None
                 | Some q \<Rightarrow> Some (s\<lparr>monitor_data_queue := q\<rparr>)))
      else Some s)"

subsection \<open>Concrete states\<close>

text \<open>A monitor \<open>m1\<close> of the server output \<open>psf.out\<close>, as registered when it is opened.\<close>

definition example_info :: monitor_info where
  "example_info =
     \<lparr>window_id = ''monitor_m1'', plot_container = ''monitor_m1_plot_container'',
      placeholder_tag = Some ''monitor_m1_placeholder'', node_uuid = ''n1'', output_name = ''out'',
      server_output_name = ''psf.out'', update_count = 0, last_update = 0, subscribed = False,
      dpg_plotter = False, min_update_interval = 0.1, pending_data = None, skipped_frames = 0\<rparr>"

definition old_sample :: item where
  "old_sample = DataUpdate ''m1'' (RawDict (Some (Scalar 1)) None) 1"

definition new_sample :: item where
  "new_sample = DataUpdate ''m1'' (RawDict (Some (Scalar 2)) None) 2"

definition other_sample :: item where
  "other_sample = DataUpdate ''m2'' (RawDict (Some (Scalar 7)) None) 1"

definition old_status :: item where
  "old_status = StatusUpdate (Some ''m1'') ''subscribed'' (Some 1)"

definition psf_event :: data_event where
  "psf_event = \<lparr>ev_name = Some ''psf.out'', ev_data = Some (RawDict (Some (Scalar 2)) None)\<rparr>"

text \<open>Both queues at their capacity.\<close>

definition saturated_state :: state where
  "saturated_state =
     \<lparr>active_monitors = [(''m1'', example_info)], subscribed_outputs = {''psf.out''},
      monitor_data_queue = replicate 100 old_sample, status_update_queue = replicate 50 old_status,
      socketio_connected = True, socketio_enabled = True, monitor_running = True,
      simple_displays = [], wire = []\<rparr>"

text \<open>
  One open monitor with a sample and a status item queued for it, between items that are
  not its own.
\<close>

definition small_state :: state where
  "small_state =
     \<lparr>active_monitors = [(''m1'', example_info)], subscribed_outputs = {''psf.out''},
      monitor_data_queue = [StatusUpdate None ''connected'' None, old_sample, other_sample, new_sample],
      status_update_queue = [old_status],
      socketio_connected = True, socketio_enabled = True, monitor_running = True,
      simple_displays = [], wire = []\<rparr>"

text \<open>The state after \<open>m1\<close> is closed in \<open>small_state\<close>.\<close>

definition closed_state :: state where
  "closed_state =
     \<lparr>active_monitors = [], subscribed_outputs = {},
      monitor_data_queue = [StatusUpdate None ''connected'' None, other_sample],
      status_update_queue = [old_status],
      socketio_connected = True, socketio_enabled = True, monitor_running = False,
      simple_displays = [], wire = [Unsubscribe ''psf.out'']\<rparr>"

text \<open>The transport is down while \<open>psf.out\<close> is subscribed; both queues are empty.\<close>

definition offline_state :: state where
  "offline_state =
     \<lparr>active_monitors = [(''m1'', example_info)], subscribed_outputs = {''psf.out''},
      monitor_data_queue = [], status_update_queue = [],
      socketio_connected = False, socketio_enabled = True, monitor_running = True,
      simple_displays = [], wire = []\<rparr>"

definition offline_unsubscribed :: state where
  "offline_unsubscribed = offline_state\<lparr>subscribed_outputs := {}\<rparr>"

text \<open>
  A connection that is lost and comes back: the transport is up with \<open>psf.out\<close>
  subscribed, then the handler \<open>disconnect\<close> runs at time 2, then the handler \<open>connect\<close>.
\<close>

definition online_state :: state where
  "online_state = offline_state\<lparr>socketio_connected := True\<rparr>"

definition dropped_state :: state where
  "dropped_state =
     offline_state\<lparr>status_update_queue := [StatusUpdate (Some ''m1'') ''disconnected'' (Some 2)]\<rparr>"

definition reconnected_state :: state where
  "reconnected_state =
     dropped_state\<lparr>socketio_connected := True,
        monitor_data_queue := [StatusUpdate None ''connected'' None], wire := [GetParams]\<rparr>"

text \<open>
  An environment in which every GUI item exists, every plot succeeds, and a list of \<open>n\<close>
  values converts to a vector of \<open>n\<close> elements.
\<close>

definition example_env :: env where
  "example_env =
     \<lparr>does_item_exist = (\<lambda>tag. True),
      np_array = (\<lambda>v. case v of Listed xs \<Rightarrow> Some (NDArray [length xs] (map (\<lambda>x. 0) xs)) | _ \<Rightarrow> None),
      plot_history = (\<lambda>v. True), plot_vector = (\<lambda>a. True), plot_2d_image_clean = (\<lambda>a. True),
      first_channel = (\<lambda>a. a), mean_channels = (\<lambda>a. a)\<rparr>"

text \<open>The payload of an image of \<open>h\<close> rows and \<open>w\<close> columns, sent flat with its shape.\<close>

definition image_payload :: "nat \<Rightarrow> nat \<Rightarrow> raw_data" where
  "image_payload h w = RawDict (Some (Listed (replicate (h * w) (Scalar 0)))) (Some [h, w])"

text \<open>The same environment with every GUI item gone.\<close>

definition no_window_env :: env where
  "no_window_env = example_env\<lparr>does_item_exist := (\<lambda>tag. False)\<rparr>"

text \<open>
  The states that one run of the consumer loop leaves from \<open>small_state\<close> at time 0.05,
  with the windows there and with the windows gone.
\<close>

definition throttled_state :: state where
  "throttled_state =
     small_state\<lparr>active_monitors :=
        [(''m1'', example_info\<lparr>pending_data := Some new_sample, skipped_frames := 2\<rparr>)],
        monitor_data_queue := [], status_update_queue := []\<rparr>"

definition orphaned_state :: state where
  "orphaned_state = small_state\<lparr>active_monitors := [], monitor_data_queue := [], status_update_queue := []\<rparr>"

text \<open>A backlog of 52 items in the data queue, and what the health check makes of it.\<close>

definition backlog_state :: state where
  "backlog_state =
     small_state\<lparr>monitor_data_queue :=
        replicate 30 old_sample @ [StatusUpdate None ''connected'' None]
          @ replicate 20 other_sample @ [new_sample]\<rparr>"

definition compacted_state :: state where
  "compacted_state =
     small_state\<lparr>monitor_data_queue := [new_sample, other_sample, StatusUpdate None ''connected'' None]\<rparr>"

section \<open>Properties\<close>

subsection \<open>Queues\<close>

lemma put_all_eq:
  "put_all maxsize q xs =
     (if xs = [] \<or> maxsize = 0 \<or> length q + length xs \<le> maxsize then Some (q @ xs) else None)"
  by (induction xs arbitrary: q) (auto simp: q_put_def q_full_def)

lemma put_all_bounded:
  "put_all maxsize q xs = Some q' \<Longrightarrow> 0 < maxsize \<Longrightarrow> length q \<le> maxsize \<Longrightarrow> length q' \<le> maxsize"
  by (auto simp: put_all_eq split: if_splits)

lemma safe_update_monitor_status_eq:
  "length (status_update_queue s) \<le> 50 \<Longrightarrow>
   safe_update_monitor_status m st now s =
     Some (s\<lparr>status_update_queue :=
        (if length (status_update_queue s) = 50 then tl (status_update_queue s)
         else status_update_queue s) @ [StatusUpdate (Some m) st (Some now)]\<rparr>)"
  by (cases "status_update_queue s")
     (auto simp: safe_update_monitor_status_def q_put_def q_full_def q_get_nowait_def Let_def)

lemma data_update_bounded:
  "data_update data now s = Some s' \<Longrightarrow> queues_bounded s \<Longrightarrow> queues_bounded s'"
  by (auto simp: data_update_def queues_bounded_def split: option.splits if_splits dest: put_all_bounded)

lemma connect_bounded:
  "connect s = Some s' \<Longrightarrow> queues_bounded s \<Longrightarrow> queues_bounded s'"
  by (auto simp: connect_def queues_bounded_def q_put_def q_full_def split: option.splits if_splits)

lemma safe_update_bounded:
  "safe_update_monitor_status m st now s = Some s' \<Longrightarrow> queues_bounded s \<Longrightarrow> queues_bounded s'"
  by (auto simp: safe_update_monitor_status_eq queues_bounded_def)

lemma do_push_bounded: "do_push p s = Some s' \<Longrightarrow> queues_bounded s \<Longrightarrow> queues_bounded s'"
  by (cases p) (auto dest: data_update_bounded connect_bounded safe_update_bounded)

lemma run_pushes_bounded: "run_pushes ps s = Some s' \<Longrightarrow> queues_bounded s \<Longrightarrow> queues_bounded s'"
  by (induction ps arbitrary: s) (auto split: option.splits dest: do_push_bounded)

lemma data_update_full: "length (monitor_data_queue s) = 100 \<Longrightarrow> data_update data now s = Some s"
  by (auto simp: data_update_def split: option.splits)

lemma data_update_room:
  assumes "ev_name data = Some name" and "name \<noteq> []" and "ev_data data = Some raw"
      and "length (monitor_data_queue s) + length (matching_monitors name s) \<le> 100"
  shows "data_update data now s =
     Some (s\<lparr>monitor_data_queue := monitor_data_queue s
             @ map (\<lambda>(monitor_id, info). DataUpdate monitor_id raw now) (matching_monitors name s)\<rparr>)"
  using assms by (cases "matching_monitors name s") (auto simp: data_update_def put_all_eq)

text \<open>
  C1, as the source has it. The claim reads: for every sequence of pushes without
  draining, neither queue exceeds its capacity (100 data items, 50 status items), and a
  push that finds its queue at capacity evicts the oldest item to admit the newest. The
  data queue does not do the second part: \<open>data_update\<close> returns at once when it finds 100
  items, so the incoming sample is the one that is lost and the oldest item stays at the
  head of the queue.
\<close>

theorem data_push_at_capacity_counterexample:
  "data_update psf_event 2 saturated_state = Some saturated_state
   \<and> matching_monitors ''psf.out'' saturated_state = [(''m1'', example_info)]
   \<and> length (monitor_data_queue saturated_state) = 100
   \<and> hd (monitor_data_queue saturated_state) = old_sample
   \<and> new_sample \<notin> set (monitor_data_queue saturated_state)
   \<and> monitor_data_queue saturated_state \<noteq> tl (monitor_data_queue saturated_state) @ [new_sample]"
proof -
  have kept: "data_update psf_event 2 saturated_state = Some saturated_state
      \<and> matching_monitors ''psf.out'' saturated_state = [(''m1'', example_info)]
      \<and> length (monitor_data_queue saturated_state) = 100
      \<and> hd (monitor_data_queue saturated_state) = old_sample
      \<and> new_sample \<notin> set (monitor_data_queue saturated_state)"
    by (simp add: data_update_def psf_event_def saturated_state_def matching_monitors_def
        example_info_def old_sample_def new_sample_def)
  have "new_sample \<in> set (tl (monitor_data_queue saturated_state) @ [new_sample])"
    by simp
  with kept have "monitor_data_queue saturated_state \<noteq> tl (monitor_data_queue saturated_state) @ [new_sample]"
    by metis
  with kept show ?thesis by blast
qed

text \<open>
  C1, amended: from a state whose queues are within their capacities, every sequence of
  pushes that returns ends in such a state; a status push always returns, and when it finds
  50 items it drops the oldest of them and appends the new one; a \<open>data_update\<close> event that
  finds 100 items in the data queue returns with the state unchanged, while one that finds
  room for an item for each monitor of its name appends these items.
\<close>

theorem ingestion_queues_bounded:
  assumes "queues_bounded s"
  shows "(\<forall>s'. run_pushes ps s = Some s' \<longrightarrow> queues_bounded s')
    \<and> safe_update_monitor_status m st now s =
          Some (s\<lparr>status_update_queue :=
            (if length (status_update_queue s) = 50 then tl (status_update_queue s)
             else status_update_queue s) @ [StatusUpdate (Some m) st (Some now)]\<rparr>)
    \<and> (length (monitor_data_queue s) = 100 \<longrightarrow> data_update data now s = Some s)
    \<and> (ev_name data = Some name \<and> name \<noteq> [] \<and> ev_data data = Some raw
         \<and> length (monitor_data_queue s) + length (matching_monitors name s) \<le> 100 \<longrightarrow>
       data_update data now s =
         Some (s\<lparr>monitor_data_queue := monitor_data_queue s
                 @ map (\<lambda>(monitor_id, info). DataUpdate monitor_id raw now) (matching_monitors name s)\<rparr>))"
proof -
  from assms have "length (status_update_queue s) \<le> 50"
    by (simp add: queues_bounded_def)
  then have status: "safe_update_monitor_status m st now s =
          Some (s\<lparr>status_update_queue :=
            (if length (status_update_queue s) = 50 then tl (status_update_queue s)
             else status_update_queue s) @ [StatusUpdate (Some m) st (Some now)]\<rparr>)"
    by (rule safe_update_monitor_status_eq)
  from assms have "\<forall>s'. run_pushes ps s = Some s' \<longrightarrow> queues_bounded s'"
    by (blast intro: run_pushes_bounded)
  with status show ?thesis
    by (simp add: data_update_full data_update_room)
qed

theorem ingestion_queues_bounded_witness:
  "queues_bounded saturated_state
   \<and> length (monitor_data_queue saturated_state) = 100
   \<and> length (status_update_queue saturated_state) = 50
   \<and> run_pushes [PushStatus ''m1'' ''receiving'' 2, PushData psf_event 2] saturated_state =
       Some (saturated_state\<lparr>status_update_queue :=
               replicate 49 old_status @ [StatusUpdate (Some ''m1'') ''receiving'' (Some 2)]\<rparr>)
   \<and> queues_bounded (saturated_state\<lparr>status_update_queue :=
               replicate 49 old_status @ [StatusUpdate (Some ''m1'') ''receiving'' (Some 2)]\<rparr>)
   \<and> data_update psf_event 2 saturated_state = Some saturated_state
   \<and> queues_bounded small_state
   \<and> length (monitor_data_queue small_state) + length (matching_monitors ''psf.out'' small_state) \<le> 100
   \<and> data_update psf_event 2 small_state =
       Some (small_state\<lparr>monitor_data_queue :=
               [StatusUpdate None ''connected'' None, old_sample, other_sample, new_sample, new_sample]\<rparr>)"
proof -
  have b: "queues_bounded saturated_state"
    by (simp add: queues_bounded_def saturated_state_def)
  have l: "length (monitor_data_queue saturated_state) = 100"
    by (simp add: saturated_state_def)
  have l': "length (status_update_queue saturated_state) = 50"
    by (simp add: saturated_state_def)
  note t = ingestion_queues_bounded [OF b, of "[PushStatus ''m1'' ''receiving'' 2, PushData psf_event 2]"
      "''m1''" "''receiving''" 2 psf_event "''psf.out''" "RawDict (Some (Scalar 2)) None"]
  from t l have d: "data_update psf_event 2 saturated_state = Some saturated_state"
    by blast
  from t l' have st: "safe_update_monitor_status ''m1'' ''receiving'' 2 saturated_state =
      Some (saturated_state\<lparr>status_update_queue :=
               replicate 49 old_status @ [StatusUpdate (Some ''m1'') ''receiving'' (Some 2)]\<rparr>)"
    by (simp add: saturated_state_def)
  have d': "data_update psf_event 2 (saturated_state\<lparr>status_update_queue :=
               replicate 49 old_status @ [StatusUpdate (Some ''m1'') ''receiving'' (Some 2)]\<rparr>)
        = Some (saturated_state\<lparr>status_update_queue :=
               replicate 49 old_status @ [StatusUpdate (Some ''m1'') ''receiving'' (Some 2)]\<rparr>)"
    by (simp add: data_update_def psf_event_def saturated_state_def)
  from st d' have r: "run_pushes [PushStatus ''m1'' ''receiving'' 2, PushData psf_event 2] saturated_state =
       Some (saturated_state\<lparr>status_update_queue :=
               replicate 49 old_status @ [StatusUpdate (Some ''m1'') ''receiving'' (Some 2)]\<rparr>)"
    by simp
  with t have "queues_bounded (saturated_state\<lparr>status_update_queue :=
               replicate 49 old_status @ [StatusUpdate (Some ''m1'') ''receiving'' (Some 2)]\<rparr>)"
    by blast
  then have q: "queues_bounded (saturated_state\<lparr>status_update_queue :=
               replicate 49 old_status @ [StatusUpdate (Some ''m1'') ''receiving'' (Some 2)]\<rparr>)" .
  have b': "queues_bounded small_state"
    by (simp add: queues_bounded_def small_state_def)
  have m: "matching_monitors ''psf.out'' small_state = [(''m1'', example_info)]"
    by (simp add: matching_monitors_def small_state_def example_info_def)
  have room: "ev_name psf_event = Some ''psf.out'' \<and> ''psf.out'' \<noteq> []
      \<and> ev_data psf_event = Some (RawDict (Some (Scalar 2)) None)
      \<and> length (monitor_data_queue small_state) + length (matching_monitors ''psf.out'' small_state) \<le> 100"
    by (simp add: m) (simp add: psf_event_def small_state_def)
  from ingestion_queues_bounded [OF b', of "[]" "''m1''" "''receiving''" 2 psf_event "''psf.out''"
      "RawDict (Some (Scalar 2)) None"] room
  have "data_update psf_event 2 small_state =
         Some (small_state\<lparr>monitor_data_queue := monitor_data_queue small_state
                 @ map (\<lambda>(monitor_id, info). DataUpdate monitor_id (RawDict (Some (Scalar 2)) None) 2)
                     (matching_monitors ''psf.out'' small_state)\<rparr>)"
    by blast
  then have e: "data_update psf_event 2 small_state =
       Some (small_state\<lparr>monitor_data_queue :=
               [StatusUpdate None ''connected'' None, old_sample, other_sample, new_sample, new_sample]\<rparr>)"
    by (simp add: m) (simp add: small_state_def new_sample_def)
  from b l l' r d q b' room e show ?thesis
    by blast
qed

subsection \<open>Closing a monitor\<close>

lemma drain_other_eq:
  "drain_other m q temp = temp @ filter (\<lambda>item. item_monitor_id item \<noteq> Some m) q"
  by (induction q arbitrary: temp) auto

lemma clear_queue_for_monitor_eq:
  assumes "length (monitor_data_queue s) \<le> 100"
  shows "clear_queue_for_monitor m s =
     Some (s\<lparr>monitor_data_queue := filter (\<lambda>item. item_monitor_id item \<noteq> Some m) (monitor_data_queue s)\<rparr>)"
proof -
  have "length (filter (\<lambda>item. item_monitor_id item \<noteq> Some m) (monitor_data_queue s)) \<le> 100"
    using assms by (meson length_filter_le order_trans)
  then show ?thesis
    by (simp add: clear_queue_for_monitor_def drain_other_eq put_all_eq)
qed

lemma clear_queue_for_monitor_Some:
  "clear_queue_for_monitor m s = Some s' \<Longrightarrow>
     s' = s\<lparr>monitor_data_queue := filter (\<lambda>item. item_monitor_id item \<noteq> Some m) (monitor_data_queue s)\<rparr>"
  by (auto simp: clear_queue_for_monitor_def drain_other_eq put_all_eq split: option.splits if_splits)

lemma set_subscribed_none:
  "\<forall>(k, i) \<in> set ms. server_output_name i \<noteq> name \<Longrightarrow> set_subscribed name flag st now ms s = Some s"
  by (induction ms arbitrary: s) auto

text \<open>
  \<open>_unsubscribe_output\<close> always returns: its loop over the monitors runs only when no
  monitor has the name, and then queues nothing.
\<close>

lemma unsubscribe_output_eq:
  "unsubscribe_output name now s =
     Some (if name \<noteq> [] \<and> matching_monitors name s = [] \<and> name \<in> subscribed_outputs s
           then (if socketio_connected s
                 then s\<lparr>subscribed_outputs := subscribed_outputs s - {name}, wire := wire s @ [Unsubscribe name]\<rparr>
                 else s\<lparr>subscribed_outputs := subscribed_outputs s - {name}\<rparr>)
           else s)"
proof -
  have "matching_monitors name s = [] \<Longrightarrow> \<forall>(k, i) \<in> set (active_monitors s). server_output_name i \<noteq> name"
    by (auto simp: matching_monitors_def filter_empty_conv)
  then show ?thesis
    by (auto simp: unsubscribe_output_def send_unsubscribe_request_def set_subscribed_none Let_def)
qed

lemma close_monitor_absent:
  "map_of (active_monitors s) m = None \<Longrightarrow> close_monitor m f now s = Some s"
  by (simp add: close_monitor_def)

lemma map_of_delete_self: "map_of (AList.delete m xs) m = None"
  by (simp add: AList.delete_conv)

lemma close_monitor_removes:
  assumes "close_monitor m f now s = Some s'"
      and "map_of (active_monitors s) m = Some info"
  shows "active_monitors s' = AList.delete m (active_monitors s)
       \<and> monitor_data_queue s' = filter (\<lambda>item. item_monitor_id item \<noteq> Some m) (monitor_data_queue s)
       \<and> status_update_queue s' = status_update_queue s"
  using assms
  by (auto simp: close_monitor_def Let_def unsubscribe_output_eq
          split: option.splits if_splits dest!: clear_queue_for_monitor_Some)

lemma close_monitor_returns:
  assumes "length (monitor_data_queue s) \<le> 100"
  shows "\<exists>s'. close_monitor m f now s = Some s'"
  using assms
  by (auto simp: close_monitor_def Let_def unsubscribe_output_eq clear_queue_for_monitor_eq
          split: option.splits)

lemma close_small_state: "close_monitor ''m1'' True 3 small_state = Some closed_state"
  by (simp add: close_monitor_def small_state_def closed_state_def example_info_def Let_def
      unsubscribe_output_eq matching_monitors_def clear_queue_for_monitor_def put_all_eq
      old_sample_def new_sample_def other_sample_def)

lemma close_monitor_again:
  assumes "close_monitor m f now s = Some s'"
  shows "close_monitor m f' now' s' = Some s'"
proof (cases "map_of (active_monitors s) m")
  case None
  with assms have "s' = s" by (simp add: close_monitor_def)
  with None show ?thesis by (simp add: close_monitor_absent)
next
  case (Some info)
  with assms have "active_monitors s' = AList.delete m (active_monitors s)"
    by (simp add: close_monitor_removes)
  then have "map_of (active_monitors s') m = None"
    by (simp add: map_of_delete_self)
  then show ?thesis by (rule close_monitor_absent)
qed

text \<open>
  C2: closing a monitor a second time changes nothing. In a state whose data queue is
  within its capacity the first call returns, and a second call for the same monitor id
  (with either value of \<open>from_window_close\<close>, at any later time) returns the very state
  the first call left: the monitor table, the subscribed set, both queues and the emitted
  messages are the same, so no second \<open>unsubscribe\<close> is emitted.
\<close>

theorem close_monitor_idempotent:
  assumes "length (monitor_data_queue s) \<le> 100"
  shows "\<exists>s'. close_monitor m f now s = Some s' \<and> close_monitor m f' now' s' = Some s'"
proof -
  from assms obtain s' where first: "close_monitor m f now s = Some s'"
    using close_monitor_returns by blast
  then have "close_monitor m f' now' s' = Some s'"
    by (rule close_monitor_again)
  with first show ?thesis by blast
qed

theorem close_monitor_idempotent_witness:
  "length (monitor_data_queue small_state) \<le> 100
   \<and> close_monitor ''m1'' True 3 small_state = Some closed_state
   \<and> close_monitor ''m1'' False 4 closed_state = Some closed_state
   \<and> wire closed_state = [Unsubscribe ''psf.out'']"
proof -
  have l: "length (monitor_data_queue small_state) \<le> 100"
    by (simp add: small_state_def)
  from close_monitor_idempotent [OF l, of "''m1''" True 3 False 4] close_small_state
  have "close_monitor ''m1'' False 4 closed_state = Some closed_state"
    by simp
  with l close_small_state show ?thesis
    by (simp add: closed_state_def)
qed

text \<open>
  C3, as the source has it. The claim reads: after \<open>close(m)\<close> no item left in any
  ingestion queue, data or status, carries the monitor id \<open>m\<close>. Only the data queue is
  purged; a status item queued for the monitor is still in the status queue afterwards
  (the consumer loop discards it later, when it finds the monitor gone).
\<close>

theorem close_monitor_status_queue_counterexample:
  "map_of (active_monitors small_state) ''m1'' = Some example_info
   \<and> close_monitor ''m1'' True 3 small_state = Some closed_state
   \<and> status_update_queue closed_state = [old_status]
   \<and> item_monitor_id old_status = Some ''m1''"
  using close_small_state
  by (simp add: small_state_def closed_state_def old_status_def)

text \<open>
  C3, amended: for every open monitor \<open>m\<close>, in a state whose data queue is within its
  capacity, \<open>close(m)\<close> returns, and no item left in the data queue carries the monitor
  id \<open>m\<close>.
\<close>

theorem close_monitor_purges_data_queue:
  assumes "length (monitor_data_queue s) \<le> 100"
      and "map_of (active_monitors s) m = Some info"
  shows "\<exists>s'. close_monitor m f now s = Some s'
           \<and> (\<forall>item \<in> set (monitor_data_queue s'). item_monitor_id item \<noteq> Some m)"
proof -
  from assms(1) obtain s' where s': "close_monitor m f now s = Some s'"
    using close_monitor_returns by blast
  with assms(2) have "monitor_data_queue s' =
      filter (\<lambda>item. item_monitor_id item \<noteq> Some m) (monitor_data_queue s)"
    by (simp add: close_monitor_removes)
  then have "\<forall>item \<in> set (monitor_data_queue s'). item_monitor_id item \<noteq> Some m"
    by simp
  with s' show ?thesis by blast
qed

theorem close_monitor_purges_data_queue_witness:
  "length (monitor_data_queue small_state) \<le> 100
   \<and> map_of (active_monitors small_state) ''m1'' = Some example_info
   \<and> close_monitor ''m1'' True 3 small_state = Some closed_state
   \<and> Some ''m1'' \<notin> item_monitor_id ` set (monitor_data_queue closed_state)
   \<and> old_sample \<in> set (monitor_data_queue small_state)
   \<and> item_monitor_id old_sample = Some ''m1''"
proof -
  have l: "length (monitor_data_queue small_state) \<le> 100"
    by (simp add: small_state_def)
  have o: "map_of (active_monitors small_state) ''m1'' = Some example_info"
    by (simp add: small_state_def)
  from close_monitor_purges_data_queue [OF l o, of True 3] close_small_state
  have "\<forall>item \<in> set (monitor_data_queue closed_state). item_monitor_id item \<noteq> Some ''m1''"
    by simp
  then have "Some ''m1'' \<notin> item_monitor_id ` set (monitor_data_queue closed_state)"
    by auto
  with l o close_small_state show ?thesis
    by (simp add: small_state_def old_sample_def)
qed

text \<open>
  C10: purging the data queue for a monitor id \<open>m\<close> returns (the data queue being within
  its capacity) and leaves the queue as it was with exactly the items of monitor id \<open>m\<close>
  removed: the other items are all kept, in their order. Nothing else of the state changes.
\<close>

theorem clear_queue_for_monitor_keeps_others:
  assumes "length (monitor_data_queue s) \<le> 100"
  shows "clear_queue_for_monitor m s =
     Some (s\<lparr>monitor_data_queue :=
             filter (\<lambda>item. item_monitor_id item \<noteq> Some m) (monitor_data_queue s)\<rparr>)"
  using assms by (rule clear_queue_for_monitor_eq)

theorem clear_queue_for_monitor_keeps_others_witness:
  "length (monitor_data_queue small_state) \<le> 100
   \<and> clear_queue_for_monitor ''m1'' small_state =
       Some (small_state\<lparr>monitor_data_queue := [StatusUpdate None ''connected'' None, other_sample]\<rparr>)"
proof -
  have l: "length (monitor_data_queue small_state) \<le> 100"
    by (simp add: small_state_def)
  from clear_queue_for_monitor_keeps_others [OF l, of "''m1''"] l show ?thesis
    by (simp add: small_state_def old_sample_def new_sample_def other_sample_def)
qed

subsection \<open>Flow control\<close>

text \<open>
  C5: \<open>_request_next_frame\<close> leaves the state as it is, emitting nothing, when the
  transport is not connected or no output name is subscribed; otherwise it appends exactly
  one \<open>newdata\<close> message, which carries all the subscribed names, and changes nothing
  else. The handler \<open>done\<close> and the delayed request of the consumer loop do the same.
\<close>

theorem request_next_frame_emits:
  "(\<not> socketio_connected s \<or> subscribed_outputs s = {} \<longrightarrow> request_next_frame s = s)
   \<and> (socketio_connected s \<and> subscribed_outputs s \<noteq> {} \<longrightarrow>
        request_next_frame s = s\<lparr>wire := wire s @ [NewData (subscribed_outputs s)]\<rparr>)
   \<and> done_event s = request_next_frame s
   \<and> delayed_request s = request_next_frame s"
  by (simp add: request_next_frame_def done_event_def delayed_request_def)

theorem request_next_frame_emits_witness:
  "\<not> socketio_connected offline_state
   \<and> request_next_frame offline_state = offline_state
   \<and> subscribed_outputs (small_state\<lparr>subscribed_outputs := {}\<rparr>) = {}
   \<and> request_next_frame (small_state\<lparr>subscribed_outputs := {}\<rparr>) = small_state\<lparr>subscribed_outputs := {}\<rparr>
   \<and> socketio_connected small_state \<and> subscribed_outputs small_state \<noteq> {}
   \<and> request_next_frame small_state = small_state\<lparr>wire := [NewData {''psf.out''}]\<rparr>"
proof -
  have a: "\<not> socketio_connected offline_state"
    by (simp add: offline_state_def)
  have b: "subscribed_outputs (small_state\<lparr>subscribed_outputs := {}\<rparr>) = {}"
    by simp
  have c: "socketio_connected small_state \<and> subscribed_outputs small_state \<noteq> {}"
    by (simp add: small_state_def)
  from request_next_frame_emits [of offline_state] a
  have 1: "request_next_frame offline_state = offline_state" by blast
  from request_next_frame_emits [of "small_state\<lparr>subscribed_outputs := {}\<rparr>"] b
  have 2: "request_next_frame (small_state\<lparr>subscribed_outputs := {}\<rparr>) = small_state\<lparr>subscribed_outputs := {}\<rparr>"
    by blast
  from request_next_frame_emits [of small_state] c
  have "request_next_frame small_state = small_state\<lparr>wire := wire small_state @ [NewData (subscribed_outputs small_state)]\<rparr>"
    by blast
  then have 3: "request_next_frame small_state = small_state\<lparr>wire := [NewData {''psf.out''}]\<rparr>"
    by (simp add: small_state_def)
  from a b c 1 2 3 show ?thesis by blast
qed


subsection \<open>Subscriptions\<close>

lemma safe_update_monitor_status_frame:
  assumes "length (status_update_queue s) \<le> 50"
  shows "\<exists>s'. safe_update_monitor_status m st now s = Some s'
      \<and> length (status_update_queue s') \<le> 50
      \<and> active_monitors s' = active_monitors s \<and> subscribed_outputs s' = subscribed_outputs s
      \<and> monitor_data_queue s' = monitor_data_queue s \<and> socketio_connected s' = socketio_connected s
      \<and> wire s' = wire s"
  using assms by (auto simp: safe_update_monitor_status_eq)

lemma update_info_simps [simp]:
  "subscribed_outputs (update_info m f s) = subscribed_outputs s"
  "monitor_data_queue (update_info m f s) = monitor_data_queue s"
  "status_update_queue (update_info m f s) = status_update_queue s"
  "socketio_connected (update_info m f s) = socketio_connected s"
  "wire (update_info m f s) = wire s"
  "map fst (active_monitors (update_info m f s)) = map fst (active_monitors s)"
  by (auto simp: update_info_def)

lemma set_subscribed_frame:
  assumes "length (status_update_queue s) \<le> 50"
  shows "\<exists>s'. set_subscribed name flag st now ms s = Some s'
      \<and> length (status_update_queue s') \<le> 50
      \<and> map fst (active_monitors s') = map fst (active_monitors s)
      \<and> subscribed_outputs s' = subscribed_outputs s
      \<and> monitor_data_queue s' = monitor_data_queue s \<and> socketio_connected s' = socketio_connected s
      \<and> wire s' = wire s"
  using assms
proof (induction ms arbitrary: s)
  case Nil
  then show ?case by simp
next
  case (Cons p ms)
  obtain k i where p: "p = (k, i)" by (cases p)
  show ?case
  proof (cases "server_output_name i = name")
    case False
    with p Cons show ?thesis by simp
  next
    case True
    let ?u = "update_info k (\<lambda>i. i\<lparr>subscribed := flag\<rparr>) s"
    from Cons.prems have "length (status_update_queue ?u) \<le> 50" by simp
    from safe_update_monitor_status_frame [OF this, of k st now]
    obtain s1 where s1: "safe_update_monitor_status k st now ?u = Some s1"
      "length (status_update_queue s1) \<le> 50"
      "active_monitors s1 = active_monitors ?u" "subscribed_outputs s1 = subscribed_outputs ?u"
      "monitor_data_queue s1 = monitor_data_queue ?u" "socketio_connected s1 = socketio_connected ?u"
      "wire s1 = wire ?u"
      by blast
    from Cons.IH [OF s1(2)] obtain s' where s': "set_subscribed name flag st now ms s1 = Some s'"
      "length (status_update_queue s') \<le> 50"
      "map fst (active_monitors s') = map fst (active_monitors s1)"
      "subscribed_outputs s' = subscribed_outputs s1"
      "monitor_data_queue s' = monitor_data_queue s1" "socketio_connected s' = socketio_connected s1"
      "wire s' = wire s1"
      by blast
    from p True s1 s' show ?thesis by simp
  qed
qed


text \<open>
  C6, as the source has it. The claim reads: subscribing a name that is already in the
  subscribed set causes no further wire emission. \<open>_subscribe_output\<close> calls
  \<open>_request_next_frame\<close> whenever the transport is connected, whether or not the name
  was new, so a \<open>newdata\<close> message is emitted.
\<close>

theorem subscribe_again_emits_counterexample:
  "''psf.out'' \<in> subscribed_outputs small_state
   \<and> wire small_state = []
   \<and> subscribe_output ''psf.out'' 3 small_state = Some (small_state\<lparr>wire := [NewData {''psf.out''}]\<rparr>)"
  by (simp add: subscribe_output_def small_state_def request_next_frame_def)


text \<open>
  C6, amended: for a non-empty name, subscribing a name that is already in the subscribed
  set does what \<open>_request_next_frame\<close> does and nothing more (one \<open>newdata\<close> message with
  all subscribed names when connected, nothing when not); and when the transport is not
  connected, subscribing a new name returns with the name added to the set, nothing
  emitted, the data queue untouched and the transport still not connected.
\<close>

theorem subscribe_output_amended:
  assumes "name \<noteq> []"
  shows "(name \<in> subscribed_outputs s \<longrightarrow> subscribe_output name now s = Some (request_next_frame s))
    \<and> (name \<notin> subscribed_outputs s \<and> \<not> socketio_connected s \<and> length (status_update_queue s) \<le> 50 \<longrightarrow>
         (\<exists>s'. subscribe_output name now s = Some s'
            \<and> subscribed_outputs s' = insert name (subscribed_outputs s)
            \<and> wire s' = wire s
            \<and> monitor_data_queue s' = monitor_data_queue s
            \<and> \<not> socketio_connected s'))"
proof (intro conjI impI)
  assume "name \<in> subscribed_outputs s"
  with assms show "subscribe_output name now s = Some (request_next_frame s)"
    by (simp add: subscribe_output_def request_next_frame_def)
next
  assume a: "name \<notin> subscribed_outputs s \<and> \<not> socketio_connected s \<and> length (status_update_queue s) \<le> 50"
  let ?s0 = "s\<lparr>subscribed_outputs := insert name (subscribed_outputs s)\<rparr>"
  from a have "length (status_update_queue ?s0) \<le> 50" by simp
  from set_subscribed_frame [OF this, of name True "''subscribed''" now "active_monitors s"]
  obtain s1 where s1: "set_subscribed name True ''subscribed'' now (active_monitors s) ?s0 = Some s1"
      "subscribed_outputs s1 = subscribed_outputs ?s0"
      "monitor_data_queue s1 = monitor_data_queue ?s0" "socketio_connected s1 = socketio_connected ?s0"
      "wire s1 = wire ?s0"
    by blast
  with assms a show "\<exists>s'. subscribe_output name now s = Some s'
            \<and> subscribed_outputs s' = insert name (subscribed_outputs s)
            \<and> wire s' = wire s
            \<and> monitor_data_queue s' = monitor_data_queue s
            \<and> \<not> socketio_connected s'"
    by (simp add: subscribe_output_def)
qed

lemma subscribe_offline:
  "subscribe_output ''psf.out'' 3 offline_unsubscribed =
     Some (offline_state\<lparr>active_monitors := [(''m1'', example_info\<lparr>subscribed := True\<rparr>)],
             status_update_queue := [StatusUpdate (Some ''m1'') ''subscribed'' (Some 3)]\<rparr>)"
  by (simp add: subscribe_output_def offline_unsubscribed_def offline_state_def example_info_def
      update_info_def safe_update_monitor_status_def q_full_def q_put_def Let_def)

theorem subscribe_output_amended_witness:
  "''psf.out'' \<noteq> []
   \<and> ''psf.out'' \<in> subscribed_outputs small_state
   \<and> subscribe_output ''psf.out'' 3 small_state = Some (small_state\<lparr>wire := [NewData {''psf.out''}]\<rparr>)
   \<and> ''psf.out'' \<in> subscribed_outputs offline_state
   \<and> subscribe_output ''psf.out'' 3 offline_state = Some offline_state
   \<and> ''psf.out'' \<notin> subscribed_outputs offline_unsubscribed
   \<and> \<not> socketio_connected offline_unsubscribed
   \<and> length (status_update_queue offline_unsubscribed) \<le> 50
   \<and> subscribe_output ''psf.out'' 3 offline_unsubscribed =
       Some (offline_state\<lparr>active_monitors := [(''m1'', example_info\<lparr>subscribed := True\<rparr>)],
               status_update_queue := [StatusUpdate (Some ''m1'') ''subscribed'' (Some 3)]\<rparr>)
   \<and> wire offline_state = wire offline_unsubscribed"
proof -
  have n: "''psf.out'' \<noteq> []" by simp
  have a: "''psf.out'' \<in> subscribed_outputs small_state"
    by (simp add: small_state_def)
  have b: "''psf.out'' \<in> subscribed_outputs offline_state"
    by (simp add: offline_state_def)
  have c: "''psf.out'' \<notin> subscribed_outputs offline_unsubscribed \<and> \<not> socketio_connected offline_unsubscribed
      \<and> length (status_update_queue offline_unsubscribed) \<le> 50"
    by (simp add: offline_unsubscribed_def offline_state_def)
  from subscribe_output_amended [OF n, of small_state 3] a
  have "subscribe_output ''psf.out'' 3 small_state = Some (request_next_frame small_state)"
    by blast
  then have 1: "subscribe_output ''psf.out'' 3 small_state = Some (small_state\<lparr>wire := [NewData {''psf.out''}]\<rparr>)"
    by (simp add: request_next_frame_def small_state_def)
  from subscribe_output_amended [OF n, of offline_state 3] b
  have "subscribe_output ''psf.out'' 3 offline_state = Some (request_next_frame offline_state)"
    by blast
  then have 2: "subscribe_output ''psf.out'' 3 offline_state = Some offline_state"
    by (simp add: request_next_frame_def offline_state_def)
  from subscribe_output_amended [OF n, of offline_unsubscribed 3] c
  obtain s' where "subscribe_output ''psf.out'' 3 offline_unsubscribed = Some s'" "wire s' = wire offline_unsubscribed"
    by blast
  with subscribe_offline have 3: "wire offline_state = wire offline_unsubscribed"
    by simp
  from n a b c 1 2 3 subscribe_offline show ?thesis by blast
qed


subsection \<open>Connection\<close>

text \<open>
  C7, as the source has it. The claim reads: on every transition into the connected state a
  request covering each subscribed name is issued again. Neither the handler \<open>connect\<close> nor
  \<open>_connect_socketio\<close> reads the subscribed set: with \<open>psf.out\<close> subscribed, the only
  messages emitted on connecting are \<open>get_params\<close> and \<open>test_connection\<close>.
\<close>

theorem reconnect_counterexample:
  "socketio_connected online_state
   \<and> subscribed_outputs online_state = {''psf.out''}
   \<and> disconnect 2 online_state = Some dropped_state
   \<and> \<not> socketio_connected dropped_state
   \<and> connect dropped_state = Some reconnected_state
   \<and> socketio_connected reconnected_state
   \<and> subscribed_outputs reconnected_state = {''psf.out''}
   \<and> wire reconnected_state = [GetParams]
   \<and> wire (connect_socketio True reconnected_state) = [GetParams, TestConnection]
   \<and> wire (connect_socketio True dropped_state) = [TestConnection]"
  by (simp add: disconnect_def connect_def connect_socketio_def online_state_def offline_state_def
      dropped_state_def reconnected_state_def safe_update_monitor_status_def
      q_put_def q_full_def Let_def)

text \<open>
  C7, amended: on a transition into the connected state the handler \<open>connect\<close> (the data
  queue having room) sets the flag, queues a status item and emits \<open>get_params\<close> only, and
  \<open>_connect_socketio\<close> emits \<open>test_connection\<close> only; the subscribed set is unchanged
  and no request for it is issued. A request covering the subscribed names is issued by a
  later call of \<open>_subscribe_output\<close> for a name of the set.
\<close>

theorem connect_requests_nothing:
  "(length (monitor_data_queue s) < 100 \<longrightarrow>
      connect s = Some (s\<lparr>socketio_connected := True,
                          monitor_data_queue := monitor_data_queue s @ [StatusUpdate None ''connected'' None],
                          wire := wire s @ [GetParams]\<rparr>))
   \<and> (socketio_enabled s \<longrightarrow>
        connect_socketio True s = s\<lparr>socketio_connected := True, wire := wire s @ [TestConnection]\<rparr>)
   \<and> (socketio_connected s \<and> name \<noteq> [] \<and> name \<in> subscribed_outputs s \<longrightarrow>
        subscribe_output name now s = Some (s\<lparr>wire := wire s @ [NewData (subscribed_outputs s)]\<rparr>))"
  by (auto simp: connect_def connect_socketio_def q_put_def q_full_def subscribe_output_def
      request_next_frame_def)

theorem connect_requests_nothing_witness:
  "length (monitor_data_queue dropped_state) < 100
   \<and> connect dropped_state = Some reconnected_state
   \<and> socketio_enabled reconnected_state
   \<and> connect_socketio True reconnected_state = reconnected_state\<lparr>wire := [GetParams, TestConnection]\<rparr>
   \<and> socketio_connected reconnected_state
   \<and> ''psf.out'' \<in> subscribed_outputs reconnected_state
   \<and> subscribe_output ''psf.out'' 3 reconnected_state =
        Some (reconnected_state\<lparr>wire := [GetParams, NewData {''psf.out''}]\<rparr>)"
proof -
  have a: "length (monitor_data_queue dropped_state) < 100"
    by (simp add: dropped_state_def offline_state_def)
  have b: "socketio_enabled reconnected_state"
    by (simp add: reconnected_state_def dropped_state_def offline_state_def)
  have c: "socketio_connected reconnected_state \<and> ''psf.out'' \<noteq> []
      \<and> ''psf.out'' \<in> subscribed_outputs reconnected_state"
    by (simp add: reconnected_state_def dropped_state_def offline_state_def)
  note t = connect_requests_nothing [of dropped_state "''psf.out''" 3]
  note u = connect_requests_nothing [of reconnected_state "''psf.out''" 3]
  from t a have 1: "connect dropped_state = Some reconnected_state"
    by (simp add: reconnected_state_def dropped_state_def offline_state_def)
  from u b have 2: "connect_socketio True reconnected_state =
      reconnected_state\<lparr>wire := [GetParams, TestConnection]\<rparr>"
    by (simp add: reconnected_state_def dropped_state_def offline_state_def)
  from u c have 3: "subscribe_output ''psf.out'' 3 reconnected_state =
        Some (reconnected_state\<lparr>wire := [GetParams, NewData {''psf.out''}]\<rparr>)"
    by (simp add: reconnected_state_def dropped_state_def offline_state_def)
  from a b c 1 2 3 show ?thesis by blast
qed

subsection \<open>Adaptive throttling\<close>

lemma interval_for_pixel_count_mono:
  "n1 \<le> n2 \<Longrightarrow> interval_for_pixel_count n1 \<le> interval_for_pixel_count n2"
  by (simp add: interval_for_pixel_count_def)

lemma plot_by_shape_2d:
  "arr_shape a = [h, w] \<Longrightarrow>
   plot_by_shape e a info =
     (plot_2d_image_clean e a, info\<lparr>min_update_interval := interval_for_pixel_count (h * w)\<rparr>)"
  by (simp add: plot_by_shape_def ndim_def Let_def)

lemma plot_info_2d:
  assumes "plot_info e now raw info = (True, info')"
      and "payload_array e raw = Some a" and "arr_shape a = [h, w]"
  shows "min_update_interval info' = interval_for_pixel_count (h * w)"
  using assms
  by (auto simp: plot_info_def plot_by_shape_2d Let_def split: if_splits option.splits bool.splits)

lemma map_of_update_info:
  "map_of (active_monitors (update_info m f s)) m = map_option f (map_of (active_monitors s) m)"
proof -
  have "map_of (map (\<lambda>(k, info). if k = m then (k, f info) else (k, info)) xs) m = map_option f (map_of xs m)" for xs
    by (induction xs) auto
  then show ?thesis by (simp add: update_info_def)
qed

lemma process_and_plot_True:
  assumes "process_and_plot_data_main_thread e now m raw s = (True, t)"
  shows "\<exists>info info'. map_of (active_monitors s) m = Some info
      \<and> plot_info e now raw info = (True, info')
      \<and> t = update_info m (\<lambda>i. info') s"
  using assms
  by (auto simp: process_and_plot_data_main_thread_def split: option.splits if_splits prod.splits)

lemma process_and_plot_2d:
  assumes "process_and_plot_data_main_thread e now m raw s = (True, t)"
      and "payload_array e raw = Some a" and "arr_shape a = [h, w]"
  shows "\<exists>i. map_of (active_monitors t) m = Some i \<and> min_update_interval i = interval_for_pixel_count (h * w)"
proof -
  from process_and_plot_True [OF assms(1)] obtain info info' where
    i: "map_of (active_monitors s) m = Some info" "plot_info e now raw info = (True, info')"
       "t = update_info m (\<lambda>i. info') s"
    by blast
  from i(1,3) have "map_of (active_monitors t) m = Some info'"
    by (simp add: map_of_update_info)
  moreover from plot_info_2d [OF i(2) assms(2,3)]
  have "min_update_interval info' = interval_for_pixel_count (h * w)" .
  ultimately show ?thesis by blast
qed


text \<open>
  C4: whenever a payload that converts to a 2-dimensional array of \<open>h\<close> rows and \<open>w\<close>
  columns is rendered with success, the monitor's \<open>min_update_interval\<close> afterwards is the
  entry of the step table for the element count \<open>h * w\<close>; and of two such renders, the
  one with the larger element count leaves the larger or equal interval.
\<close>

theorem min_update_interval_monotone:
  assumes "process_and_plot_data_main_thread e1 now1 m1 raw1 s1 = (True, t1)"
      and "payload_array e1 raw1 = Some a1" and "arr_shape a1 = [h1, w1]"
      and "process_and_plot_data_main_thread e2 now2 m2 raw2 s2 = (True, t2)"
      and "payload_array e2 raw2 = Some a2" and "arr_shape a2 = [h2, w2]"
      and "h1 * w1 \<le> h2 * w2"
  shows "\<exists>i1 i2. map_of (active_monitors t1) m1 = Some i1 \<and> map_of (active_monitors t2) m2 = Some i2
      \<and> min_update_interval i1 = interval_for_pixel_count (h1 * w1)
      \<and> min_update_interval i2 = interval_for_pixel_count (h2 * w2)
      \<and> min_update_interval i1 \<le> min_update_interval i2"
proof -
  from process_and_plot_2d [OF assms(1-3)] obtain i1 where
    i1: "map_of (active_monitors t1) m1 = Some i1" "min_update_interval i1 = interval_for_pixel_count (h1 * w1)"
    by blast
  from process_and_plot_2d [OF assms(4-6)] obtain i2 where
    i2: "map_of (active_monitors t2) m2 = Some i2" "min_update_interval i2 = interval_for_pixel_count (h2 * w2)"
    by blast
  from assms(7) have "interval_for_pixel_count (h1 * w1) \<le> interval_for_pixel_count (h2 * w2)"
    by (rule interval_for_pixel_count_mono)
  with i1 i2 show ?thesis by auto
qed

lemma payload_array_image:
  "payload_array example_env (image_payload h w) = Some (NDArray [h, w] (replicate (h * w) 0))"
  by (simp add: payload_array_def image_payload_def example_env_def arr_size_def)

lemma example_env_answers:
  "does_item_exist example_env tag" "plot_2d_image_clean example_env a"
  by (simp_all add: example_env_def)

lemma process_image:
  "process_and_plot_data_main_thread example_env 5 ''m1'' (image_payload h w) small_state =
     (True, small_state\<lparr>active_monitors :=
        [(''m1'', example_info\<lparr>placeholder_tag := None, dpg_plotter := True,
             min_update_interval := interval_for_pixel_count (h * w), last_update := 5, update_count := 1\<rparr>)]\<rparr>)"
  by (simp add: process_and_plot_data_main_thread_def small_state_def example_info_def plot_info_def
      payload_array_image plot_by_shape_2d update_info_def example_env_answers Let_def)

theorem min_update_interval_monotone_witness:
  "process_and_plot_data_main_thread example_env 5 ''m1'' (image_payload 100 100) small_state =
     (True, small_state\<lparr>active_monitors :=
        [(''m1'', example_info\<lparr>placeholder_tag := None, dpg_plotter := True,
             min_update_interval := 0.05, last_update := 5, update_count := 1\<rparr>)]\<rparr>)
   \<and> process_and_plot_data_main_thread example_env 5 ''m1'' (image_payload 2000 2000) small_state =
     (True, small_state\<lparr>active_monitors :=
        [(''m1'', example_info\<lparr>placeholder_tag := None, dpg_plotter := True,
             min_update_interval := 0.5, last_update := 5, update_count := 1\<rparr>)]\<rparr>)
   \<and> payload_array example_env (image_payload 100 100) = Some (NDArray [100, 100] (replicate 10000 0))
   \<and> payload_array example_env (image_payload 2000 2000) = Some (NDArray [2000, 2000] (replicate 4000000 0))
   \<and> (100::nat) * 100 \<le> 2000 * 2000
   \<and> interval_for_pixel_count (100 * 100) \<le> interval_for_pixel_count (2000 * 2000)"
proof -
  have p1: "process_and_plot_data_main_thread example_env 5 ''m1'' (image_payload 100 100) small_state =
     (True, small_state\<lparr>active_monitors :=
        [(''m1'', example_info\<lparr>placeholder_tag := None, dpg_plotter := True,
             min_update_interval := 0.05, last_update := 5, update_count := 1\<rparr>)]\<rparr>)"
    by (simp add: process_image interval_for_pixel_count_def)
  have p2: "process_and_plot_data_main_thread example_env 5 ''m1'' (image_payload 2000 2000) small_state =
     (True, small_state\<lparr>active_monitors :=
        [(''m1'', example_info\<lparr>placeholder_tag := None, dpg_plotter := True,
             min_update_interval := 0.5, last_update := 5, update_count := 1\<rparr>)]\<rparr>)"
    by (simp add: process_image interval_for_pixel_count_def)
  have a1: "payload_array example_env (image_payload 100 100) = Some (NDArray [100, 100] (replicate 10000 0))"
    by (simp add: payload_array_image)
  have a2: "payload_array example_env (image_payload 2000 2000) = Some (NDArray [2000, 2000] (replicate 4000000 0))"
    by (simp add: payload_array_image)
  have sh1: "arr_shape (NDArray [100, 100] (replicate 10000 0)) = [100, 100]" by simp
  have sh2: "arr_shape (NDArray [2000, 2000] (replicate 4000000 0)) = [2000, 2000]" by simp
  have le: "(100::nat) * 100 \<le> 2000 * 2000" by simp
  from min_update_interval_monotone [OF p1 a1 sh1 p2 a2 sh2 le]
  have "interval_for_pixel_count (100 * 100) \<le> interval_for_pixel_count (2000 * 2000)"
    by auto
  with p1 p2 a1 a2 le show ?thesis by blast
qed


subsection \<open>The consumer loop\<close>

lemma drain_status_eq: "drain_status q = []"
  by (induction q) auto

lemma process_and_plot_frame:
  assumes "process_and_plot_data_main_thread e now m raw s = (b, t)"
  shows "monitor_data_queue t = monitor_data_queue s \<and> status_update_queue t = status_update_queue s"
  using assms
  by (auto simp: process_and_plot_data_main_thread_def split: option.splits if_splits prod.splits)

lemma process_data_item_frame:
  assumes "length (status_update_queue s) \<le> 50"
  shows "\<exists>k s'. process_data_item e t item s = Some (k, s')
      \<and> monitor_data_queue s' = monitor_data_queue s
      \<and> length (status_update_queue s') \<le> 50"
proof (cases item)
  case (StatusUpdate m st ts)
  with assms show ?thesis by simp
next
  case (DataUpdate m raw ts)
  show ?thesis
  proof (cases "process_and_plot_data_main_thread e t m raw s")
    case (Pair b s1)
    from process_and_plot_frame [OF Pair]
    have f: "monitor_data_queue s1 = monitor_data_queue s" "status_update_queue s1 = status_update_queue s"
      by simp_all
    let ?u = "update_info m (\<lambda>i. i\<lparr>last_update := t\<rparr>) s1"
    from f assms have "length (status_update_queue ?u) \<le> 50" by simp
    from safe_update_monitor_status_frame [OF this, of m "''receiving''" t]
    obtain s2 where "safe_update_monitor_status m ''receiving'' t ?u = Some s2"
      "length (status_update_queue s2) \<le> 50" "monitor_data_queue s2 = monitor_data_queue ?u"
      by blast
    with DataUpdate Pair f assms show ?thesis
      by (cases b) (auto split: option.splits)
  qed
qed

lemma drain_data_frame:
  assumes "length (status_update_queue s) \<le> 50"
  shows "\<exists>c' s'. drain_data e t n c s = Some (c', s')
      \<and> monitor_data_queue s' = drop n (monitor_data_queue s)
      \<and> length (status_update_queue s') \<le> 50"
  using assms
proof (induction n arbitrary: c s)
  case 0
  then show ?case by simp
next
  case (Suc n)
  show ?case
  proof (cases "monitor_data_queue s")
    case Nil
    with Suc.prems show ?thesis by (simp add: q_get_nowait_def)
  next
    case (Cons item rest)
    let ?s0 = "s\<lparr>monitor_data_queue := rest\<rparr>"
    from Suc.prems have "length (status_update_queue ?s0) \<le> 50" by simp
    from process_data_item_frame [OF this, of e t item]
    obtain k s1 where s1: "process_data_item e t item ?s0 = Some (k, s1)"
      "monitor_data_queue s1 = rest" "length (status_update_queue s1) \<le> 50"
      by auto
    from Suc.IH [OF s1(3), of "c + k"] obtain c' s' where
      "drain_data e t n (c + k) s1 = Some (c', s')"
      "monitor_data_queue s' = drop n (monitor_data_queue s1)"
      "length (status_update_queue s') \<le> 50"
      by blast
    with Cons s1 show ?thesis by (simp add: q_get_nowait_def)
  qed
qed

lemma sweep_pending_frame:
  assumes "length (status_update_queue s) \<le> 50"
  shows "\<exists>s'. sweep_pending e t ms s = Some s'
      \<and> monitor_data_queue s' = monitor_data_queue s
      \<and> length (status_update_queue s') \<le> 50"
  using assms
proof (induction ms arbitrary: s)
  case Nil
  then show ?case by simp
next
  case (Cons m ms)
  note IH = Cons.IH
  show ?case
  proof (cases "map_of (active_monitors s) m")
    case None
    with IH [OF Cons.prems] show ?thesis by simp
  next
    case (Some info)
    show ?thesis
    proof (cases "pending_data info")
      case None
      with Some IH [OF Cons.prems] show ?thesis by simp
    next
      case (Some item)
      note item = this
      show ?thesis
      proof (cases "t - last_update info \<ge> min_update_interval info")
        case False
        with item \<open>map_of (active_monitors s) m = Some info\<close> IH [OF Cons.prems] show ?thesis by simp
      next
        case True
        obtain b s1 where p: "process_and_plot_data_main_thread e t m (item_data item) s = (b, s1)"
          by (cases "process_and_plot_data_main_thread e t m (item_data item) s")
        from process_and_plot_frame [OF p]
        have f: "monitor_data_queue s1 = monitor_data_queue s" "status_update_queue s1 = status_update_queue s"
          by simp_all
        show ?thesis
        proof (cases b)
          case False
          from f Cons.prems have "length (status_update_queue s1) \<le> 50" by simp
          from IH [OF this] f p False True item \<open>map_of (active_monitors s) m = Some info\<close>
          show ?thesis by simp
        next
          case b: True
          let ?u = "update_info m (\<lambda>i. i\<lparr>last_update := t, pending_data := None\<rparr>) s1"
          from f Cons.prems have "length (status_update_queue ?u) \<le> 50" by simp
          from safe_update_monitor_status_frame [OF this, of m "''receiving''" t]
          obtain s2 where s2: "safe_update_monitor_status m ''receiving'' t ?u = Some s2"
            "length (status_update_queue s2) \<le> 50" "monitor_data_queue s2 = monitor_data_queue ?u"
            by blast
          from IH [OF s2(2)] s2 f p b True item \<open>map_of (active_monitors s) m = Some info\<close>
          show ?thesis by simp
        qed
      qed
    qed
  qed
qed

lemma monitor_update_frame_returns:
  "\<exists>s' request delay. monitor_update_frame e t s = Some (s', request, delay)
      \<and> monitor_data_queue s' = drop 5 (monitor_data_queue s)"
proof -
  let ?s0 = "s\<lparr>status_update_queue := drain_status (status_update_queue s)\<rparr>"
  have "length (status_update_queue ?s0) \<le> 50" by (simp add: drain_status_eq)
  from drain_data_frame [OF this, of e t 5 0] obtain c s1 where
    s1: "drain_data e t 5 0 ?s0 = Some (c, s1)" "monitor_data_queue s1 = drop 5 (monitor_data_queue s)"
      "length (status_update_queue s1) \<le> 50"
    by auto
  from sweep_pending_frame [OF s1(3), of e t "map fst (active_monitors s1)"] obtain s2 where
    "sweep_pending e t (map fst (active_monitors s1)) s1 = Some s2"
    "monitor_data_queue s2 = monitor_data_queue s1"
    by blast
  with s1 show ?thesis by (simp add: monitor_update_frame_def)
qed

lemma process_data_item_not_due:
  assumes "map_of (active_monitors s) m = Some info"
      and "window_id info \<noteq> []" and "does_item_exist e (window_id info)"
      and "t - last_update info < min_update_interval info"
  shows "process_data_item e t (DataUpdate m raw ts) s =
     Some (0, update_info m (\<lambda>i. i\<lparr>pending_data := Some (DataUpdate m raw ts),
                                    skipped_frames := skipped_frames i + 1\<rparr>) s)"
  using assms by simp


lemma frame_small_state:
  "monitor_update_frame example_env 0.05 small_state = Some (throttled_state, False, 10)"
  by code_simp

lemma frame_no_window:
  "monitor_update_frame no_window_env 0.05 small_state = Some (orphaned_state, False, 10)"
  by code_simp


text \<open>
  C8, as the source has it. The claim reads: every dequeued item whose monitor exists but
  is not yet due overwrites the monitor's pending slot and increments its skipped-frame
  counter. The loop checks the monitor's window before it looks at the time: for a monitor
  that is in the table and not due, but whose window no longer exists, the item is
  discarded and the monitor is removed from the table; nothing is stored as pending.
\<close>

theorem window_gone_counterexample:
  "map_of (active_monitors small_state) ''m1'' = Some example_info
   \<and> 0.05 - last_update example_info < min_update_interval example_info
   \<and> old_sample = DataUpdate ''m1'' (RawDict (Some (Scalar 1)) None) 1
   \<and> process_data_item no_window_env 0.05 old_sample small_state =
        Some (0, small_state\<lparr>active_monitors := []\<rparr>)
   \<and> monitor_update_frame no_window_env 0.05 small_state = Some (orphaned_state, False, 10)
   \<and> active_monitors orphaned_state = []"
  using frame_no_window
  by (simp add: small_state_def example_info_def old_sample_def no_window_env_def orphaned_state_def)

text \<open>
  C8, amended: every invocation of the consumer loop returns and takes at most 5 items
  out of the data queue (the first 5, or all of them when there are fewer); and the body of
  its loop, run for a data item whose monitor is in the table, has its window and is not
  yet due, stores the item in the monitor's single pending slot, in place of whatever was
  there, and increments the monitor's counter of skipped frames, rendering nothing.
\<close>

theorem monitor_update_frame_throttles:
  "(\<exists>s' request delay. monitor_update_frame e t s = Some (s', request, delay)
        \<and> monitor_data_queue s' = drop 5 (monitor_data_queue s))
   \<and> (map_of (active_monitors s) m = Some info \<and> window_id info \<noteq> []
        \<and> does_item_exist e (window_id info) \<and> t - last_update info < min_update_interval info \<longrightarrow>
       process_data_item e t (DataUpdate m raw ts) s =
         Some (0, update_info m (\<lambda>i. i\<lparr>pending_data := Some (DataUpdate m raw ts),
                                        skipped_frames := skipped_frames i + 1\<rparr>) s)
       \<and> map_of (active_monitors
             (update_info m (\<lambda>i. i\<lparr>pending_data := Some (DataUpdate m raw ts),
                                    skipped_frames := skipped_frames i + 1\<rparr>) s)) m =
           Some (info\<lparr>pending_data := Some (DataUpdate m raw ts),
                      skipped_frames := skipped_frames info + 1\<rparr>))"
proof (intro conjI impI)
  show "\<exists>s' request delay. monitor_update_frame e t s = Some (s', request, delay)
        \<and> monitor_data_queue s' = drop 5 (monitor_data_queue s)"
    by (rule monitor_update_frame_returns)
next
  assume a: "map_of (active_monitors s) m = Some info \<and> window_id info \<noteq> []
        \<and> does_item_exist e (window_id info) \<and> t - last_update info < min_update_interval info"
  then show "process_data_item e t (DataUpdate m raw ts) s =
         Some (0, update_info m (\<lambda>i. i\<lparr>pending_data := Some (DataUpdate m raw ts),
                                        skipped_frames := skipped_frames i + 1\<rparr>) s)"
    by (simp add: process_data_item_not_due)
  from a show "map_of (active_monitors
             (update_info m (\<lambda>i. i\<lparr>pending_data := Some (DataUpdate m raw ts),
                                    skipped_frames := skipped_frames i + 1\<rparr>) s)) m =
           Some (info\<lparr>pending_data := Some (DataUpdate m raw ts),
                      skipped_frames := skipped_frames info + 1\<rparr>)"
    by (simp add: map_of_update_info)
qed

theorem monitor_update_frame_throttles_witness:
  "map_of (active_monitors small_state) ''m1'' = Some example_info
   \<and> window_id example_info \<noteq> []
   \<and> does_item_exist example_env (window_id example_info)
   \<and> 0.05 - last_update example_info < min_update_interval example_info
   \<and> process_data_item example_env 0.05 (DataUpdate ''m1'' (RawDict (Some (Scalar 2)) None) 2) small_state =
       Some (0, small_state\<lparr>active_monitors :=
                  [(''m1'', example_info\<lparr>pending_data := Some new_sample, skipped_frames := 1\<rparr>)]\<rparr>)
   \<and> monitor_update_frame example_env 0.05 small_state = Some (throttled_state, False, 10)
   \<and> monitor_data_queue throttled_state = drop 5 (monitor_data_queue small_state)"
proof -
  have a: "map_of (active_monitors small_state) ''m1'' = Some example_info \<and> window_id example_info \<noteq> []
      \<and> does_item_exist example_env (window_id example_info)
      \<and> 0.05 - last_update example_info < min_update_interval example_info"
    by (simp add: small_state_def example_info_def example_env_def)
  note t = monitor_update_frame_throttles [of example_env "0.05" small_state "''m1''" example_info
      "RawDict (Some (Scalar 2)) None" 2]
  from t a have "process_data_item example_env 0.05 (DataUpdate ''m1'' (RawDict (Some (Scalar 2)) None) 2) small_state =
         Some (0, update_info ''m1'' (\<lambda>i. i\<lparr>pending_data := Some (DataUpdate ''m1'' (RawDict (Some (Scalar 2)) None) 2),
                                        skipped_frames := skipped_frames i + 1\<rparr>) small_state)"
    by blast
  then have 1: "process_data_item example_env 0.05 (DataUpdate ''m1'' (RawDict (Some (Scalar 2)) None) 2) small_state =
       Some (0, small_state\<lparr>active_monitors :=
                  [(''m1'', example_info\<lparr>pending_data := Some new_sample, skipped_frames := 1\<rparr>)]\<rparr>)"
    by (simp add: update_info_def small_state_def example_info_def new_sample_def)
  from t frame_small_state
  have 2: "monitor_data_queue throttled_state = drop 5 (monitor_data_queue small_state)"
    by auto
  from a 1 2 frame_small_state show ?thesis by blast
qed

subsection \<open>Queue health\<close>

lemma length_update_le: "length (AList.update k v al) \<le> Suc (length al)"
  by (induction al) auto

lemma collect_latest_eq:
  "collect_latest q latest temp =
     (fold (\<lambda>item. AList.update (item_monitor_id item) item) (filter is_data_update q) latest,
      temp @ filter (\<lambda>item. \<not> is_data_update item) q)"
  by (induction q arbitrary: latest temp) auto

lemma distinct_fold_update:
  "distinct (map fst l) \<Longrightarrow>
   distinct (map fst (fold (\<lambda>item. AList.update (item_monitor_id item) item) ds l))"
  by (induction ds arbitrary: l) (auto simp: distinct_update)

lemma length_fold_update:
  "length (fold (\<lambda>item. AList.update (item_monitor_id item) item) ds l) \<le> length l + length ds"
proof (induction ds arbitrary: l)
  case Nil
  then show ?case by simp
next
  case (Cons d ds)
  have "length (AList.update (item_monitor_id d) d l) \<le> Suc (length l)"
    by (rule length_update_le)
  with Cons [of "AList.update (item_monitor_id d) d l"] show ?case by simp
qed

lemma map_of_fold_update:
  "map_of (fold (\<lambda>item. AList.update (item_monitor_id item) item) ds l) k =
     (case filter (\<lambda>d. item_monitor_id d = k) ds of [] \<Rightarrow> map_of l k | d # fs \<Rightarrow> Some (last (d # fs)))"
proof (induction ds arbitrary: l)
  case Nil
  then show ?case by simp
next
  case (Cons d ds)
  show ?case
    by (simp add: Cons update_conv' split: list.splits)
qed

text \<open>What the loop leaves in \<open>latest_items\<close>, started from the empty dictionary.\<close>

lemma latest_items_entries:
  assumes "(k, v) \<in> set (fold (\<lambda>item. AList.update (item_monitor_id item) item) ds [])"
  shows "filter (\<lambda>d. item_monitor_id d = k) ds \<noteq> [] \<and> v = last (filter (\<lambda>d. item_monitor_id d = k) ds)"
proof -
  let ?L = "fold (\<lambda>item. AList.update (item_monitor_id item) item) ds []"
  have "distinct (map fst ?L)" by (simp add: distinct_fold_update)
  with assms have "map_of ?L k = Some v" by simp
  then show ?thesis
    by (auto simp: map_of_fold_update split: list.splits)
qed

lemma latest_items_key:
  assumes "(k, v) \<in> set (fold (\<lambda>item. AList.update (item_monitor_id item) item) ds [])"
  shows "item_monitor_id v = k \<and> v \<in> set ds"
proof -
  let ?f = "filter (\<lambda>d. item_monitor_id d = k) ds"
  from latest_items_entries [OF assms] have ne: "?f \<noteq> []" and v: "v = last ?f" by simp_all
  from ne have "last ?f \<in> set ?f" by (rule last_in_set)
  with v show ?thesis by simp
qed

lemma latest_items_cover:
  assumes "d \<in> set ds"
  shows "\<exists>v. (item_monitor_id d, v) \<in> set (fold (\<lambda>item. AList.update (item_monitor_id item) item) ds [])"
proof -
  let ?L = "fold (\<lambda>item. AList.update (item_monitor_id item) item) ds []"
  from assms have "filter (\<lambda>x. item_monitor_id x = item_monitor_id d) ds \<noteq> []"
    by (auto simp: filter_empty_conv)
  then obtain x xs where "filter (\<lambda>x. item_monitor_id x = item_monitor_id d) ds = x # xs"
    by (auto simp: neq_Nil_conv)
  then have "map_of ?L (item_monitor_id d) = Some (last (x # xs))"
    by (simp add: map_of_fold_update)
  then have "(item_monitor_id d, last (x # xs)) \<in> set ?L" by (rule map_of_SomeD)
  then show ?thesis ..
qed

lemma filter_key_distinct:
  "distinct (map fst l) \<Longrightarrow> length (filter (\<lambda>p. fst p = k) l) \<le> 1"
  by (induction l) (auto simp: filter_empty_conv image_iff)

lemma filter_filter_key:
  "filter (\<lambda>x. item_monitor_id x = k) (filter is_data_update q) =
   filter (\<lambda>x. is_data_update x \<and> item_monitor_id x = k) q"
  by (induction q) auto

lemma compacted_queue:
  fixes q :: "item list"
  defines "L \<equiv> fold (\<lambda>item. AList.update (item_monitor_id item) item) (filter is_data_update q) []"
  defines "q' \<equiv> map snd L @ filter (\<lambda>item. \<not> is_data_update item) q"
  shows "length q' \<le> length q"
    and "length (filter (\<lambda>item. is_data_update item \<and> item_monitor_id item = k) q') \<le> 1"
    and "\<forall>item \<in> set q'. is_data_update item \<longrightarrow>
           item = last (filter (\<lambda>x. is_data_update x \<and> item_monitor_id x = item_monitor_id item) q)"
    and "\<forall>item \<in> set q. is_data_update item \<longrightarrow>
           (\<exists>item' \<in> set q'. is_data_update item' \<and> item_monitor_id item' = item_monitor_id item)"
    and "filter (\<lambda>item. \<not> is_data_update item) q' = filter (\<lambda>item. \<not> is_data_update item) q"
proof -
  have key: "item_monitor_id (snd p) = fst p \<and> is_data_update (snd p)" if "p \<in> set L" for p
    using latest_items_key [of "fst p" "snd p" "filter is_data_update q"] that
    by (simp add: L_def)
  have "length L \<le> length (filter is_data_update q)"
    using length_fold_update [of "filter is_data_update q" "[]"] by (simp add: L_def)
  moreover have "length (filter is_data_update q) + length (filter (\<lambda>item. \<not> is_data_update item) q) = length q"
    by (rule sum_length_filter_compl)
  ultimately show "length q' \<le> length q" by (simp add: q'_def)
  have dist: "distinct (map fst L)" by (simp add: L_def distinct_fold_update)
  have "filter (\<lambda>item. is_data_update item \<and> item_monitor_id item = k) (map snd L) =
        map snd (filter (\<lambda>p. fst p = k) L)"
    using key by (auto simp: filter_map comp_def intro!: arg_cong [where f = "map snd"] filter_cong)
  moreover have "filter (\<lambda>item. is_data_update item \<and> item_monitor_id item = k)
        (filter (\<lambda>item. \<not> is_data_update item) q) = []"
    by (auto simp: filter_empty_conv)
  ultimately show "length (filter (\<lambda>item. is_data_update item \<and> item_monitor_id item = k) q') \<le> 1"
    using filter_key_distinct [OF dist, of k] by (simp add: q'_def)
  show "\<forall>item \<in> set q'. is_data_update item \<longrightarrow>
           item = last (filter (\<lambda>x. is_data_update x \<and> item_monitor_id x = item_monitor_id item) q)"
  proof (intro ballI impI)
    fix item assume "item \<in> set q'" and "is_data_update item"
    then obtain k where kv: "(k, item) \<in> set L" by (auto simp: q'_def)
    from key [OF kv] have k: "item_monitor_id item = k" by simp
    from latest_items_entries [of k item "filter is_data_update q"] kv
    have "item = last (filter (\<lambda>d. item_monitor_id d = k) (filter is_data_update q))"
      by (simp add: L_def)
    with k show "item = last (filter (\<lambda>x. is_data_update x \<and> item_monitor_id x = item_monitor_id item) q)"
      by (simp add: filter_filter_key)
  qed
  show "\<forall>item \<in> set q. is_data_update item \<longrightarrow>
           (\<exists>item' \<in> set q'. is_data_update item' \<and> item_monitor_id item' = item_monitor_id item)"
  proof (intro ballI impI)
    fix item assume "item \<in> set q" and "is_data_update item"
    then have "item \<in> set (filter is_data_update q)" by simp
    from latest_items_cover [OF this] obtain v where v: "(item_monitor_id item, v) \<in> set L"
      by (auto simp: L_def)
    from key [OF v] have "is_data_update v \<and> item_monitor_id v = item_monitor_id item" by simp
    moreover from v have "v \<in> set q'" by (force simp: q'_def)
    ultimately show "\<exists>item' \<in> set q'. is_data_update item' \<and> item_monitor_id item' = item_monitor_id item"
      by blast
  qed
  have "filter (\<lambda>item. \<not> is_data_update item) (map snd L) = []"
    using key by (auto simp: filter_empty_conv)
  then show "filter (\<lambda>item. \<not> is_data_update item) q' = filter (\<lambda>item. \<not> is_data_update item) q"
    by (simp add: q'_def)
qed

lemma monitor_queue_health_eq:
  assumes "50 < length (monitor_data_queue s)" and "length (monitor_data_queue s) \<le> 100"
  shows "monitor_queue_health s =
     Some (s\<lparr>monitor_data_queue :=
        map snd (fold (\<lambda>item. AList.update (item_monitor_id item) item)
                   (filter is_data_update (monitor_data_queue s)) [])
        @ filter (\<lambda>item. \<not> is_data_update item) (monitor_data_queue s)\<rparr>)"
proof -
  from compacted_queue(1) [of "monitor_data_queue s"] assms(2)
  have "length (map snd (fold (\<lambda>item. AList.update (item_monitor_id item) item)
                   (filter is_data_update (monitor_data_queue s)) [])
        @ filter (\<lambda>item. \<not> is_data_update item) (monitor_data_queue s)) \<le> 100"
    by linarith
  with assms(1) show ?thesis
    by (simp add: monitor_queue_health_def collect_latest_eq put_all_eq)
qed


lemma health_backlog: "monitor_queue_health backlog_state = Some compacted_state"
  by code_simp

text \<open>
  C9: when the health check finds more than 50 items in the data queue (a queue within
  its capacity of 100), it returns and changes the data queue only; afterwards the queue
  holds at most one \<open>data_update\<close> item for each monitor id, each of them the most
  recently queued \<open>data_update\<close> item of its monitor, every monitor that had one still has
  one, and the items that are not \<open>data_update\<close> items are all there, in their order.
\<close>

theorem monitor_queue_health_compacts:
  assumes "50 < length (monitor_data_queue s)" and "length (monitor_data_queue s) \<le> 100"
  shows "\<exists>s'. monitor_queue_health s = Some s'
     \<and> s' = s\<lparr>monitor_data_queue := monitor_data_queue s'\<rparr>
     \<and> (\<forall>k. length (filter (\<lambda>item. is_data_update item \<and> item_monitor_id item = k)
                     (monitor_data_queue s')) \<le> 1)
     \<and> (\<forall>item \<in> set (monitor_data_queue s'). is_data_update item \<longrightarrow>
           item = last (filter (\<lambda>x. is_data_update x \<and> item_monitor_id x = item_monitor_id item)
                          (monitor_data_queue s)))
     \<and> (\<forall>item \<in> set (monitor_data_queue s). is_data_update item \<longrightarrow>
           (\<exists>item' \<in> set (monitor_data_queue s').
               is_data_update item' \<and> item_monitor_id item' = item_monitor_id item))
     \<and> filter (\<lambda>item. \<not> is_data_update item) (monitor_data_queue s') =
         filter (\<lambda>item. \<not> is_data_update item) (monitor_data_queue s)"
proof -
  let ?q' = "map snd (fold (\<lambda>item. AList.update (item_monitor_id item) item)
                   (filter is_data_update (monitor_data_queue s)) [])
        @ filter (\<lambda>item. \<not> is_data_update item) (monitor_data_queue s)"
  let ?s' = "s\<lparr>monitor_data_queue := ?q'\<rparr>"
  have q: "monitor_data_queue ?s' = ?q'" by simp
  have "monitor_queue_health s = Some ?s'"
    using assms by (rule monitor_queue_health_eq)
  moreover have "?s' = s\<lparr>monitor_data_queue := monitor_data_queue ?s'\<rparr>" by simp
  moreover have "\<forall>k. length (filter (\<lambda>item. is_data_update item \<and> item_monitor_id item = k)
                     (monitor_data_queue ?s')) \<le> 1"
    unfolding q using compacted_queue(2) [of _ "monitor_data_queue s"] by blast
  moreover have "\<forall>item \<in> set (monitor_data_queue ?s'). is_data_update item \<longrightarrow>
           item = last (filter (\<lambda>x. is_data_update x \<and> item_monitor_id x = item_monitor_id item)
                          (monitor_data_queue s))"
    unfolding q by (rule compacted_queue(3))
  moreover have "\<forall>item \<in> set (monitor_data_queue s). is_data_update item \<longrightarrow>
           (\<exists>item' \<in> set (monitor_data_queue ?s').
               is_data_update item' \<and> item_monitor_id item' = item_monitor_id item)"
    unfolding q by (rule compacted_queue(4))
  moreover have "filter (\<lambda>item. \<not> is_data_update item) (monitor_data_queue ?s') =
         filter (\<lambda>item. \<not> is_data_update item) (monitor_data_queue s)"
    unfolding q by (rule compacted_queue(5))
  ultimately show ?thesis by blast
qed


theorem monitor_queue_health_compacts_witness:
  "50 < length (monitor_data_queue backlog_state)
   \<and> length (monitor_data_queue backlog_state) \<le> 100
   \<and> monitor_queue_health backlog_state = Some compacted_state
   \<and> monitor_data_queue compacted_state = [new_sample, other_sample, StatusUpdate None ''connected'' None]
   \<and> filter (\<lambda>item. \<not> is_data_update item) (monitor_data_queue compacted_state) =
       filter (\<lambda>item. \<not> is_data_update item) (monitor_data_queue backlog_state)"
proof -
  have a: "50 < length (monitor_data_queue backlog_state)"
    by (simp add: backlog_state_def)
  have b: "length (monitor_data_queue backlog_state) \<le> 100"
    by (simp add: backlog_state_def)
  from monitor_queue_health_compacts [OF a b] health_backlog
  have "filter (\<lambda>item. \<not> is_data_update item) (monitor_data_queue compacted_state) =
       filter (\<lambda>item. \<not> is_data_update item) (monitor_data_queue backlog_state)"
    by auto
  with a b health_backlog show ?thesis
    by (simp add: compacted_state_def)
qed

end
